theory Spec2Isabelle
  imports Complex_Main "HOL-Library.Sublist"
begin

section \<open>Shape diameter function: data model\<close>

text \<open>
  A shallow embedding of \<^verbatim>\<open>src/libslic3r/ShapeDiameterFunction.cpp\<close>.

  Conventions of the embedding.
  \<^item> In the direction sampler, the width estimator and the subdivision \<^verbatim>\<open>float\<close> and
    \<^verbatim>\<open>double\<close> are binary floating-point numbers: a value is a real number, and every
    operation of the code is the exact operation followed by the rounding of its format
    to the nearest number, ties to even (\<open>f32\<close> for binary32, \<open>f64\<close> for binary64). The
    exponent range is unbounded, so there is no overflow and there are no subnormal
    numbers; "not a number" appears only where it is written out. The library functions
    \<^verbatim>\<open>sqrt\<close>, \<^verbatim>\<open>cos\<close>, \<^verbatim>\<open>sin\<close> and \<^verbatim>\<open>acos\<close> are taken as correctly rounded, and no
    multiplication is fused with an addition.
  \<^item> In the Poisson filter and the support point sampler \<^verbatim>\<open>float\<close> is a real number:
    rounding is outside the model there.
  \<^item> \<^verbatim>\<open>int\<close> and \<^verbatim>\<open>size_t\<close> are unbounded integers. An index that the C++ code would
    wrap below zero is negative here, and every read of a \<^verbatim>\<open>std::vector\<close> checks the
    range: an out-of-range read (undefined behaviour in C++) is the error value
    \<open>OutOfRange\<close>.
  \<^item> \<^verbatim>\<open>assert\<close> is a no-op (the release build).
  \<^item> Eigen's three-component vectors are the datatype \<open>Vec3\<close>; \<open>nth3 v i\<close> is \<^verbatim>\<open>v[i]\<close>.
\<close>

datatype 'a Vec3 = Vec3 (vx: 'a) (vy: 'a) (vz: 'a)

type_synonym Vec3f = "real Vec3"
type_synonym Vec3crd = "int Vec3"

fun nth3 :: "'a Vec3 \<Rightarrow> nat \<Rightarrow> 'a" where
  "nth3 (Vec3 a b c) i = (if i = 0 then a else if i = 1 then b else c)"

datatype error = OutOfRange | BadCast

text \<open>\<^verbatim>\<open>v[i]\<close> on a \<^verbatim>\<open>std::vector\<close>, with the range check made explicit.\<close>

definition vget :: "'a list \<Rightarrow> int \<Rightarrow> 'a option" where
  "vget xs i = (if 0 \<le> i \<and> i < int (length xs) then Some (xs ! nat i) else None)"

definition vadd :: "Vec3f \<Rightarrow> Vec3f \<Rightarrow> Vec3f" where
  "vadd a b = Vec3 (vx a + vx b) (vy a + vy b) (vz a + vz b)"

definition vsub :: "Vec3f \<Rightarrow> Vec3f \<Rightarrow> Vec3f" where
  "vsub a b = Vec3 (vx a - vx b) (vy a - vy b) (vz a - vz b)"

definition smul :: "Vec3f \<Rightarrow> real \<Rightarrow> Vec3f" where
  "smul a c = Vec3 (vx a * c) (vy a * c) (vz a * c)"

definition dot :: "Vec3f \<Rightarrow> Vec3f \<Rightarrow> real" where
  "dot a b = vx a * vx b + vy a * vy b + vz a * vz b"

definition cross :: "Vec3f \<Rightarrow> Vec3f \<Rightarrow> Vec3f" where
  "cross a b = Vec3 (vy a * vz b - vz a * vy b) (vz a * vx b - vx a * vz b)
                    (vx a * vy b - vy a * vx b)"

definition norm3 :: "Vec3f \<Rightarrow> real" where
  "norm3 a = sqrt (dot a a)"

record PointRadius =
  point :: Vec3f
  radius :: real

section \<open>Binary floating point\<close>

text \<open>
  The rounding to nearest, ties to even, to a format of \<open>p\<close> significant bits: \<open>ulp p x\<close>
  is the distance of the numbers of the format around \<open>x\<close>, \<open>rne\<close> rounds a real number
  to the nearest integer, the even one of two that are equally near.
\<close>

definition pow2 :: "int \<Rightarrow> real" where
  "pow2 e = 2 powr (real_of_int e)"

definition rne :: "real \<Rightarrow> int" where
  "rne y =
     (let f = \<lfloor>y\<rfloor>
      in if y - of_int f < 1 / 2 then f
         else if 1 / 2 < y - of_int f then f + 1
         else if even f then f else f + 1)"

definition ulp :: "nat \<Rightarrow> real \<Rightarrow> real" where
  "ulp p x = pow2 (\<lfloor>log 2 \<bar>x\<bar>\<rfloor> - int p + 1)"

definition fl :: "nat \<Rightarrow> real \<Rightarrow> real" where
  "fl p x = (if x = 0 then 0 else sgn x * (of_int (rne (\<bar>x\<bar> / ulp p x)) * ulp p x))"

definition f32 :: "real \<Rightarrow> real" where
  "f32 = fl 24"

definition f64 :: "real \<Rightarrow> real" where
  "f64 = fl 53"

text \<open>
  Eigen's componentwise operations on \<^verbatim>\<open>Vec3f\<close> in binary32. The dot product is summed
  from the first component on; \<^verbatim>\<open>norm()\<close> is the square root of \<^verbatim>\<open>squaredNorm()\<close>.
\<close>

definition vadd32 :: "Vec3f \<Rightarrow> Vec3f \<Rightarrow> Vec3f" where
  "vadd32 a b = Vec3 (f32 (vx a + vx b)) (f32 (vy a + vy b)) (f32 (vz a + vz b))"

definition vsub32 :: "Vec3f \<Rightarrow> Vec3f \<Rightarrow> Vec3f" where
  "vsub32 a b = Vec3 (f32 (vx a - vx b)) (f32 (vy a - vy b)) (f32 (vz a - vz b))"

definition smul32 :: "Vec3f \<Rightarrow> real \<Rightarrow> Vec3f" where
  "smul32 a c = Vec3 (f32 (vx a * c)) (f32 (vy a * c)) (f32 (vz a * c))"

definition dot32 :: "Vec3f \<Rightarrow> Vec3f \<Rightarrow> real" where
  "dot32 a b = f32 (f32 (f32 (vx a * vx b) + f32 (vy a * vy b)) + f32 (vz a * vz b))"

definition cross32 :: "Vec3f \<Rightarrow> Vec3f \<Rightarrow> Vec3f" where
  "cross32 a b = Vec3 (f32 (f32 (vy a * vz b) - f32 (vz a * vy b)))
                      (f32 (f32 (vz a * vx b) - f32 (vx a * vz b)))
                      (f32 (f32 (vx a * vy b) - f32 (vy a * vx b)))"

definition norm32 :: "Vec3f \<Rightarrow> real" where
  "norm32 a = f32 (sqrt (dot32 a a))"

section \<open>Poisson filter\<close>

text \<open>
  \<^verbatim>\<open>poisson_sphere_from_samples\<close> (lines 228--250). The class \<^verbatim>\<open>PointGrid3D\<close> is not part
  of the sources at hand, so its three operations are parameters of the model:
  \<open>collides_with g p r\<close>, \<open>insert_point g p\<close> (the method \<^verbatim>\<open>insert\<close>) and the constructor \<open>mk cell_size\<close>.

  \<^verbatim>\<open>std::sort\<close> by \<^verbatim>\<open>lhs.radius < rhs.radius\<close> is \<open>sort_key radius\<close>; the order that
  \<^verbatim>\<open>std::sort\<close> gives to candidates of equal radius is unspecified, and nothing proved
  below depends on it. \<^verbatim>\<open>samples.back()\<close> on an empty vector is \<open>OutOfRange\<close>.
\<close>

fun poisson_loop ::
  "('g \<Rightarrow> Vec3f \<Rightarrow> real \<Rightarrow> bool) \<Rightarrow> ('g \<Rightarrow> Vec3f \<Rightarrow> 'g) \<Rightarrow> 'g \<Rightarrow>
   PointRadius list \<Rightarrow> 'g \<Rightarrow> PointRadius list \<Rightarrow> PointRadius list" where
  "poisson_loop collides_with insert_point grid [] actGrid result = result"
| "poisson_loop collides_with insert_point grid (sample # samples) actGrid result =
     (let r = radius sample in
      if collides_with actGrid (point sample) r
        then poisson_loop collides_with insert_point grid samples actGrid result
      else if collides_with grid (point sample) r
        then poisson_loop collides_with insert_point grid samples actGrid result
      else poisson_loop collides_with insert_point grid samples
             (insert_point actGrid (point sample)) (result @ [sample]))"

definition poisson_sphere_from_samples ::
  "('g \<Rightarrow> Vec3f \<Rightarrow> real \<Rightarrow> bool) \<Rightarrow> ('g \<Rightarrow> Vec3f \<Rightarrow> 'g) \<Rightarrow> (Vec3f \<Rightarrow> 'g) \<Rightarrow>
   PointRadius list \<Rightarrow> 'g \<Rightarrow> error + PointRadius list" where
  "poisson_sphere_from_samples collides_with insert_point mk samples grid =
     (let sorted_samples = sort_key radius samples in
      if sorted_samples = [] then Inl OutOfRange
      else
        let max_r = radius (last sorted_samples);
            cell_size = Vec3 max_r max_r max_r;
            actGrid = mk cell_size
        in Inr (poisson_loop collides_with insert_point grid sorted_samples actGrid []))"

text \<open>The local grid after the points \<open>ps\<close> have been inserted, in this order.\<close>

definition grid_of :: "('g \<Rightarrow> Vec3f \<Rightarrow> 'g) \<Rightarrow> 'g \<Rightarrow> PointRadius list \<Rightarrow> 'g" where
  "grid_of insert_point g0 ps = foldl insert_point g0 (map point ps)"

text \<open>
  Every accepted point is free of collisions with the external grid and with the local
  grid that holds exactly the points accepted before it.
\<close>

definition clear_of ::
  "('g \<Rightarrow> Vec3f \<Rightarrow> real \<Rightarrow> bool) \<Rightarrow> ('g \<Rightarrow> Vec3f \<Rightarrow> 'g) \<Rightarrow> 'g \<Rightarrow> 'g \<Rightarrow>
   PointRadius list \<Rightarrow> bool" where
  "clear_of collides_with insert_point grid g0 res =
     (\<forall>i < length res.
        \<not> collides_with grid (point (res ! i)) (radius (res ! i)) \<and>
        \<not> collides_with (grid_of insert_point g0 (take i res)) (point (res ! i)) (radius (res ! i)))"


text \<open>
  A reference instance of the grid operations: the grid is the list of its points and
  two points collide when their squared distance is below the squared radius.
  Modelled from the spec: "queried for: does any stored point lie within radius r of
  query point"; the class \<^verbatim>\<open>PointGrid3D\<close> itself is missing. It serves only to
  exercise the theorems on an instance.
\<close>

definition list_collides_with :: "Vec3f list \<Rightarrow> Vec3f \<Rightarrow> real \<Rightarrow> bool" where
  "list_collides_with g p r = (\<exists>q \<in> set g. dot (vsub q p) (vsub q p) < r * r)"

definition list_insert :: "Vec3f list \<Rightarrow> Vec3f \<Rightarrow> Vec3f list" where
  "list_insert g p = g @ [p]"

definition list_grid :: "Vec3f \<Rightarrow> Vec3f list" where
  "list_grid cell_size = []"

section \<open>Direction sampler\<close>

text \<open>
  \<^verbatim>\<open>create_fibonacci_sphere_samples\<close> (lines 253--286). The loop
  \<^verbatim>\<open>for (i = 0; i < count_samples; ++i)\<close> with its \<^verbatim>\<open>break\<close> is \<open>fibonacci_loop\<close>; the
  directions are returned in the order in which the code pushes them. The loop computes
  in \<^verbatim>\<open>double\<close> (\<open>f64\<close>; the counters are converted to \<^verbatim>\<open>double\<close>) and stores the three
  components with \<^verbatim>\<open>static_cast<float>\<close> (\<open>f32\<close>); the weight is the stored third
  component. \<^verbatim>\<open>M_PI\<close> is the \<^verbatim>\<open>double\<close> nearest to \<open>\<pi>\<close>.
\<close>

record Direction =
  dir :: Vec3f
  weight :: real

definition M_PI :: real where
  "M_PI = f64 pi"

definition golden_phi :: real where
  "golden_phi = f64 (M_PI * f64 (3 - f64 (sqrt 5)))"

function fibonacci_loop :: "real \<Rightarrow> nat \<Rightarrow> nat \<Rightarrow> Direction list" where
  "fibonacci_loop min_z count_samples i =
     (if i < count_samples then
        (let z = f64 (1 - f64 (f64 (real i) / f64 (real (count_samples - 1)))) in
         if z < min_z then []
         else
           let radius_z = f64 (sqrt (f64 (1 - f64 (z * z))));
               theta = f64 (golden_phi * f64 (real i));
               x = f64 (f64 (cos theta) * radius_z);
               y = f64 (f64 (sin theta) * radius_z);
               d_dir = Vec3 (f32 x) (f32 y) (f32 z);
               d = \<lparr>dir = d_dir, weight = vz d_dir\<rparr>
           in d # fibonacci_loop min_z count_samples (Suc i))
      else [])"
  by pat_completeness auto

termination
  by (relation "measure (\<lambda>(min_z, count_samples, i). count_samples - i)") auto

definition create_fibonacci_sphere_samples :: "real \<Rightarrow> nat \<Rightarrow> Direction list" where
  "create_fibonacci_sphere_samples angle count_samples =
     (if count_samples \<le> 1 then [\<lparr>dir = Vec3 0 0 1, weight = 1\<rparr>]
      else
        let min_z = f64 (cos (f64 (f64 (f64 (angle / 2) * M_PI) / 180)))
        in fibonacci_loop min_z count_samples 0)"

text \<open>
  The \<^verbatim>\<open>double\<close> values that the sampler compares: \<^verbatim>\<open>min_z\<close> for an angle, and \<^verbatim>\<open>z\<close> at
  index \<open>i\<close> of \<open>n\<close> samples; \<open>fib_dir\<close> is the direction that the loop pushes at index
  \<open>i\<close>.
\<close>

definition fib_min_z :: "real \<Rightarrow> real" where
  "fib_min_z angle = f64 (cos (f64 (f64 (f64 (angle / 2) * M_PI) / 180)))"

definition fib_z :: "nat \<Rightarrow> nat \<Rightarrow> real" where
  "fib_z n i = f64 (1 - f64 (f64 (real i) / f64 (real (n - 1))))"

definition fib_dir :: "nat \<Rightarrow> nat \<Rightarrow> Direction" where
  "fib_dir n i =
     \<lparr>dir = Vec3
        (f32 (f64 (f64 (cos (f64 (golden_phi * f64 (real i))))
                   * f64 (sqrt (f64 (1 - f64 (fib_z n i * fib_z n i)))))))
        (f32 (f64 (f64 (sin (f64 (golden_phi * f64 (real i))))
                   * f64 (sqrt (f64 (1 - f64 (fib_z n i * fib_z n i)))))))
        (f32 (fib_z n i)),
      weight = f32 (fib_z n i)\<rparr>"

section \<open>Width estimator\<close>

text \<open>
  \<^verbatim>\<open>calc_width\<close> (lines 40--119) and \<^verbatim>\<open>calc_widths\<close> (lines 121--147).

  The header is not part of the sources at hand. \<open>RaysConfig\<close> has the fields the code
  reads; its two methods \<^verbatim>\<open>is_angle_filtering()\<close> and \<^verbatim>\<open>is_deviation_filtering()\<close> are
  boolean fields (Modelled from the spec: the ray-probing bundle has the switches
  "angleFilterEnabled" and "deviationFilterEnabled"). Two external operations are
  parameters of the model:
  \<^item> \<open>rot angle axis ray\<close> is \<^verbatim>\<open>Eigen::AngleAxis<float>(angle, axis).matrix() * ray\<close>;
  \<^item> \<open>first_hit ray_point ray\<close> is \<^verbatim>\<open>AABBTreeIndirect::intersect_ray_first_hit\<close> on the
    tree: \<open>None\<close> when it returns false, the hit otherwise.
  Of \<^verbatim>\<open>igl::Hit\<close> the code reads the triangle \<^verbatim>\<open>id\<close> and the distance \<^verbatim>\<open>t\<close>.

  All the arithmetic of \<^verbatim>\<open>calc_width\<close> is on \<^verbatim>\<open>float\<close>: every operation is rounded by
  \<open>f32\<close>, the counter \<^verbatim>\<open>widths.size()\<close> is converted to \<^verbatim>\<open>float\<close> before it divides. The
  square root of a negative number is not a number; comparing with it is false. So the
  standard deviation and the threshold are optional values, \<open>None\<close> for not a number.
\<close>

datatype Hit = Hit (hit_id: int) (hit_t: real)

record RaysConfig =
  dirs :: "Direction list"
  safe_move :: real
  normal_z_max :: real
  allowed_angle :: real
  allowed_deviation :: real
  is_angle_filtering :: bool
  is_deviation_filtering :: bool

definition no_width :: real where
  "no_width = - 1"

definition z_axe :: Vec3f where
  "z_axe = Vec3 0 0 1"

definition vneg :: "Vec3f \<Rightarrow> Vec3f" where
  "vneg a = Vec3 (- vx a) (- vy a) (- vz a)"

text \<open>
  The body of the first loop for one direction (lines 70--97): \<open>Inr None\<close> is
  \<^verbatim>\<open>continue\<close>, \<open>Inr (Some (width, weight))\<close> a surviving ray.
\<close>

definition cast_ray ::
  "(Vec3f \<Rightarrow> Vec3f) \<Rightarrow> (Vec3f \<Rightarrow> Hit option) \<Rightarrow> Vec3f list \<Rightarrow> RaysConfig \<Rightarrow> Vec3f \<Rightarrow>
   Direction \<Rightarrow> error + (real \<times> real) option" where
  "cast_ray tr_mat first_hit triangle_normals config ray_dir d =
     (let ray = dir d;
          ray_tr = tr_mat ray
      in case first_hit ray_tr of
           None \<Rightarrow> Inr None
         | Some hit \<Rightarrow>
             if is_angle_filtering config then
               (case vget triangle_normals (hit_id hit) of
                  None \<Rightarrow> Inl OutOfRange
                | Some hit_normal \<Rightarrow>
                    let dot0 = dot32 ray_dir hit_normal;
                        dot1 = (if dot0 < - 1 then - 1 else dot0);
                        dot2 = (if dot1 > 1 then 1 else dot1);
                        angle = f32 (arccos dot2)
                    in if angle > allowed_angle config then Inr None
                       else Inr (Some (hit_t hit, weight d)))
             else Inr (Some (hit_t hit, weight d)))"

text \<open>
  The first loop with its four accumulators \<^verbatim>\<open>widths\<close>, \<^verbatim>\<open>weights\<close>, \<^verbatim>\<open>sum_width\<close>
  and \<^verbatim>\<open>sq_sum_width\<close>.
\<close>

fun cast_rays ::
  "(Direction \<Rightarrow> error + (real \<times> real) option) \<Rightarrow> Direction list \<Rightarrow>
   real list \<times> real list \<times> real \<times> real \<Rightarrow> error + (real list \<times> real list \<times> real \<times> real)" where
  "cast_rays body [] acc = Inr acc"
| "cast_rays body (d # ds) (widths, weights, sum_width, sq_sum_width) =
     (case body d of
        Inl e \<Rightarrow> Inl e
      | Inr None \<Rightarrow> cast_rays body ds (widths, weights, sum_width, sq_sum_width)
      | Inr (Some (width, wt)) \<Rightarrow>
          cast_rays body ds
            (widths @ [width], weights @ [wt], f32 (sum_width + width),
             f32 (sq_sum_width + f32 (width * width))))"

text \<open>
  The second loop (lines 108--116) with \<^verbatim>\<open>sum_width\<close> and \<^verbatim>\<open>sum_weight\<close>. The test
  \<^verbatim>\<open>fabs(width - mean) > threshold_deviation\<close> is false when the threshold is not a number.
\<close>

fun weighted_sums ::
  "RaysConfig \<Rightarrow> real \<Rightarrow> real option \<Rightarrow> (real \<times> real) list \<Rightarrow> real \<times> real \<Rightarrow> real \<times> real" where
  "weighted_sums config mean threshold_deviation [] acc = acc"
| "weighted_sums config mean threshold_deviation ((width, wt) # rest) (sum_width, sum_weight) =
     (if is_deviation_filtering config \<and>
         (case threshold_deviation of
            None \<Rightarrow> False
          | Some th \<Rightarrow> \<bar>f32 (width - mean)\<bar> > th)
        then weighted_sums config mean threshold_deviation rest (sum_width, sum_weight)
      else weighted_sums config mean threshold_deviation rest
             (f32 (sum_width + f32 (width * wt)), f32 (sum_weight + wt)))"

text \<open>The aggregation after the first loop (lines 99--118).\<close>

definition aggregate_widths ::
  "RaysConfig \<Rightarrow> real list \<times> real list \<times> real \<times> real \<Rightarrow> real" where
  "aggregate_widths config acc =
     (case acc of (widths, weights, sum_width, sq_sum_width) \<Rightarrow>
        if widths = [] then no_width
        else if length widths = 1 then hd widths
        else
          let mean = f32 (sum_width / f32 (real (length widths)));
              variance = f32 (f32 (sq_sum_width / f32 (real (length widths)))
                              - f32 (mean * mean));
              standard_deviation =
                (if variance < 0 then None else Some (f32 (sqrt variance)));
              threshold_deviation =
                map_option (\<lambda>sd. f32 (sd * allowed_deviation config)) standard_deviation;
              (sum_width', sum_weight) =
                weighted_sums config mean threshold_deviation (zip widths weights) (0, 0)
          in if sum_weight \<le> 0 then mean
             else f32 (f32 (sum_width' / sum_weight) + safe_move config))"

definition calc_width ::
  "(real \<Rightarrow> Vec3f \<Rightarrow> Vec3f \<Rightarrow> Vec3f) \<Rightarrow> (Vec3f \<Rightarrow> Vec3f \<Rightarrow> Hit option) \<Rightarrow> Vec3f list \<Rightarrow>
   Vec3f \<Rightarrow> Vec3f \<Rightarrow> RaysConfig \<Rightarrow> error + real" where
  "calc_width rot first_hit triangle_normals pnt normal config =
     (if vz normal > normal_z_max config then Inr no_width
      else
        let ray_dir = vneg normal;
            ray_point = vadd32 pnt (smul32 ray_dir (safe_move config));
            axis = cross32 z_axe ray_dir;
            angle = f32 (arccos (dot32 z_axe ray_dir));
            tr_mat = rot angle axis
        in case cast_rays (cast_ray tr_mat (first_hit ray_point) triangle_normals config ray_dir)
                  (dirs config) ([], [], 0, 0) of
             Inl e \<Rightarrow> Inl e
           | Inr acc \<Rightarrow> Inr (aggregate_widths config acc))"

text \<open>
  \<^verbatim>\<open>calc_widths\<close>: the guard of lines 131--132, then one \<open>calc_width\<close> per index. The
  parallel loop writes disjoint slots of a pre-sized vector, so it is a map over the
  indices; an error of any element is the error of the whole.
\<close>

fun collect :: "(error + 'a) list \<Rightarrow> error + 'a list" where
  "collect [] = Inr []"
| "collect (r # rs) =
     (case r of
        Inl e \<Rightarrow> Inl e
      | Inr v \<Rightarrow> (case collect rs of Inl e \<Rightarrow> Inl e | Inr vs \<Rightarrow> Inr (v # vs)))"

definition calc_widths ::
  "(real \<Rightarrow> Vec3f \<Rightarrow> Vec3f \<Rightarrow> Vec3f) \<Rightarrow> (Vec3f \<Rightarrow> Vec3f \<Rightarrow> Hit option) \<Rightarrow> Vec3f list \<Rightarrow>
   Vec3f list \<Rightarrow> Vec3f list \<Rightarrow> RaysConfig \<Rightarrow> error + real list" where
  "calc_widths rot first_hit triangle_normals points normals config =
     (if points = [] \<or> dirs config = [] \<or> length points \<noteq> length normals then Inr []
      else collect (map (\<lambda>(vertex, normal).
                     calc_width rot first_hit triangle_normals vertex normal config)
                   (zip points normals)))"

text \<open>The loop body of the first loop for the vertex \<open>pnt\<close> with normal \<open>normal\<close>.\<close>

definition vertex_ray ::
  "(real \<Rightarrow> Vec3f \<Rightarrow> Vec3f \<Rightarrow> Vec3f) \<Rightarrow> (Vec3f \<Rightarrow> Vec3f \<Rightarrow> Hit option) \<Rightarrow> Vec3f list \<Rightarrow>
   Vec3f \<Rightarrow> Vec3f \<Rightarrow> RaysConfig \<Rightarrow> Direction \<Rightarrow> error + (real \<times> real) option" where
  "vertex_ray rot first_hit triangle_normals pnt normal config =
     cast_ray (rot (f32 (arccos (dot32 z_axe (vneg normal)))) (cross32 z_axe (vneg normal)))
       (first_hit (vadd32 pnt (smul32 (vneg normal) (safe_move config))))
       triangle_normals config (vneg normal)"

text \<open>The rays that survive the filtering, as pairs of hit distance and weight.\<close>

fun surviving :: "(Direction \<Rightarrow> error + (real \<times> real) option) \<Rightarrow> Direction list \<Rightarrow> (real \<times> real) list" where
  "surviving body [] = []"
| "surviving body (d # ds) =
     (case body d of Inr (Some hit) \<Rightarrow> hit # surviving body ds | _ \<Rightarrow> surviving body ds)"

text \<open>
  The aggregation in the words of the specification, over the surviving rays, with the
  roundings of binary32: \<open>sum32\<close> adds from the left, the mean is the sum divided by the
  count, the variance is the mean of the squares minus the square of the mean. A
  distance is far from the mean when the variance is not negative and the distance
  differs from the mean by more than the deviation times the multiplier.
\<close>

definition sum32 :: "real list \<Rightarrow> real" where
  "sum32 xs = foldl (\<lambda>s x. f32 (s + x)) 0 xs"

definition spec_mean :: "real list \<Rightarrow> real" where
  "spec_mean ws = f32 (sum32 ws / f32 (real (length ws)))"

definition spec_variance :: "real list \<Rightarrow> real" where
  "spec_variance ws =
     f32 (f32 (sum32 (map (\<lambda>w. f32 (w * w)) ws) / f32 (real (length ws)))
          - f32 (spec_mean ws * spec_mean ws))"

definition spec_far :: "RaysConfig \<Rightarrow> real list \<Rightarrow> real \<Rightarrow> bool" where
  "spec_far config ws w =
     (0 \<le> spec_variance ws \<and>
      \<bar>f32 (w - spec_mean ws)\<bar> > f32 (f32 (sqrt (spec_variance ws)) * allowed_deviation config))"

definition spec_kept :: "RaysConfig \<Rightarrow> (real \<times> real) list \<Rightarrow> (real \<times> real) list" where
  "spec_kept config hits =
     filter (\<lambda>(w, wt). \<not> (is_deviation_filtering config \<and> spec_far config (map fst hits) w))
       hits"

definition spec_width :: "RaysConfig \<Rightarrow> (real \<times> real) list \<Rightarrow> real" where
  "spec_width config hits =
     (if hits = [] then no_width
      else if length hits = 1 then fst (hd hits)
      else if sum32 (map snd (spec_kept config hits)) \<le> 0 then spec_mean (map fst hits)
      else f32 (f32 (sum32 (map (\<lambda>(w, wt). f32 (w * wt)) (spec_kept config hits))
                     / sum32 (map snd (spec_kept config hits)))
                + safe_move config))"

text \<open>
  The aggregation as the claim words it, over the reals: the population standard
  deviation, the weighted mean of the distances within the threshold plus \<open>safe_move\<close>,
  and the plain mean when the weights that pass sum to zero.
\<close>

definition claimed_mean :: "real list \<Rightarrow> real" where
  "claimed_mean ws = sum_list ws / real (length ws)"

definition claimed_deviation :: "real list \<Rightarrow> real" where
  "claimed_deviation ws =
     sqrt (sum_list (map (\<lambda>w. (w - claimed_mean ws)\<^sup>2) ws) / real (length ws))"

definition claimed_kept :: "RaysConfig \<Rightarrow> (real \<times> real) list \<Rightarrow> (real \<times> real) list" where
  "claimed_kept config hits =
     filter (\<lambda>(w, wt). \<not> (is_deviation_filtering config \<and>
                \<bar>w - claimed_mean (map fst hits)\<bar>
                  > allowed_deviation config * claimed_deviation (map fst hits)))
       hits"

definition claimed_width :: "RaysConfig \<Rightarrow> (real \<times> real) list \<Rightarrow> real" where
  "claimed_width config hits =
     (if hits = [] then no_width
      else if length hits = 1 then fst (hd hits)
      else if sum_list (map snd (claimed_kept config hits)) = 0 then claimed_mean (map fst hits)
      else sum_list (map (\<lambda>(w, wt). w * wt) (claimed_kept config hits))
             / sum_list (map snd (claimed_kept config hits)) + safe_move config)"

section \<open>Support point sampler\<close>

text \<open>
  \<^verbatim>\<open>generate_support_points\<close> (lines 149--226), \<^verbatim>\<open>triangle_area\<close> (lines 583--598).

  \<^verbatim>\<open>std::mt19937\<close> read through \<^verbatim>\<open>std::uniform_real_distribution<float>(0, 1)\<close> is the
  sequence \<open>draws\<close> of the values the three distributions will return and the number
  \<open>pos\<close> of values drawn so far: the three distributions are identical and share the one
  generator, so each call returns the next value and advances \<open>pos\<close> by one.
  \<open>SampleConfig\<close> has the fields the code reads (the header is missing); its field
  \<^verbatim>\<open>normal_z_max\<close> is \<open>sample_normal_z_max\<close> here, as \<open>RaysConfig\<close> has a field of the
  same name.
\<close>

record indexed_triangle_set =
  indices :: "Vec3crd list"
  vertices :: "Vec3f list"

record SampleConfig =
  min_width :: real
  max_width :: real
  min_radius :: real
  max_radius :: real
  multiplicator :: real
  sample_normal_z_max :: real

record random_generator =
  draws :: "nat \<Rightarrow> real"
  pos :: nat

definition uniform01 :: "random_generator \<Rightarrow> real \<times> random_generator" where
  "uniform01 g = (draws g (pos g), g\<lparr>pos := Suc (pos g)\<rparr>)"

definition triangle_area3 :: "Vec3f \<Rightarrow> Vec3f \<Rightarrow> Vec3f \<Rightarrow> real" where
  "triangle_area3 v0 v1 v2 =
     (let ab = vsub v1 v0;
          ac = vsub v2 v0
      in norm3 (cross ab ac) / 2)"

definition triangle_area :: "Vec3crd \<Rightarrow> Vec3f list \<Rightarrow> real option" where
  "triangle_area triangle_inices vs =
     (case (vget vs (nth3 triangle_inices 0), vget vs (nth3 triangle_inices 1),
            vget vs (nth3 triangle_inices 2)) of
        (Some v0, Some v1, Some v2) \<Rightarrow> Some (triangle_area3 v0 v1 v2)
      | _ \<Rightarrow> None)"

definition width_to_radius :: "SampleConfig \<Rightarrow> real \<Rightarrow> real" where
  "width_to_radius cfg width =
     (let width_range = max_width cfg - min_width cfg;
          radius_range = max_radius cfg - min_radius cfg
      in (width - min_width cfg) / width_range * radius_range + min_radius cfg)"

text \<open>
  The loop over the three corners of a triangle (lines 174--184). \<open>Inr None\<close> is the
  \<^verbatim>\<open>break\<close> with \<^verbatim>\<open>is_full_in_needs = false\<close>; corners after the first width out of
  range are not read.
\<close>

fun radiuses_loop ::
  "real list \<Rightarrow> SampleConfig \<Rightarrow> int list \<Rightarrow> real list \<times> real \<Rightarrow>
   error + (real list \<times> real) option" where
  "radiuses_loop widths cfg [] acc = Inr (Some acc)"
| "radiuses_loop widths cfg (ti # rest) (radiuses, area_for_one_support) =
     (case vget widths ti of
        None \<Rightarrow> Inl OutOfRange
      | Some width \<Rightarrow>
          if width > max_width cfg \<or> width < 0 then Inr None
          else
            let r = width_to_radius cfg width;
                area = r * r * pi
            in radiuses_loop widths cfg rest (radiuses @ [r], area_for_one_support + area))"

text \<open>
  The loop that scatters \<^verbatim>\<open>count\<close> points over a triangle (lines 208--223). The two
  arguments of the constructor of \<^verbatim>\<open>b\<close> are drawn in the order written.
\<close>

fun points_loop ::
  "nat \<Rightarrow> Vec3f \<Rightarrow> Vec3f \<Rightarrow> Vec3f \<Rightarrow> real list \<Rightarrow> random_generator \<Rightarrow> PointRadius list \<Rightarrow>
   PointRadius list \<times> random_generator" where
  "points_loop 0 v0 v1 v2 radiuses g result = (result, g)"
| "points_loop (Suc c) v0 v1 v2 radiuses g result =
     (let (u, g1) = uniform01 g;
          (v, g2) = uniform01 g1;
          b0 = (if u + v > 1 then 1 - u else u);
          b1 = (if u + v > 1 then 1 - v else v);
          b2 = 1 - b0 - b1;
          p = vadd (vadd (smul v0 b0) (smul v1 b1)) (smul v2 b2);
          r = b0 * radiuses ! 0 + b1 * radiuses ! 1 + b2 * radiuses ! 2
      in points_loop c v0 v1 v2 radiuses g2 (result @ [\<lparr>point = p, radius = r\<rparr>]))"

text \<open>\<^verbatim>\<open>modf\<close>: the integral part, rounded towards zero.\<close>

definition int_part :: "real \<Rightarrow> int" where
  "int_part c = (if 0 \<le> c then \<lfloor>c\<rfloor> else \<lceil>c\<rceil>)"

definition normalize3 :: "Vec3f \<Rightarrow> Vec3f" where
  "normalize3 n = (if norm3 n = 0 then n else smul n (1 / norm3 n))"

text \<open>
  The body of the loop over the triangles (lines 170--224): the points and the generator
  after the triangle; \<open>vs\<close> is \<^verbatim>\<open>its.vertices\<close>. The conversion of \<^verbatim>\<open>countf\<close> to \<^verbatim>\<open>int\<close> is undefined when the
  division is by zero; this is the error \<open>BadCast\<close>.
\<close>

definition sample_triangle ::
  "Vec3f list \<Rightarrow> real list \<Rightarrow> SampleConfig \<Rightarrow> Vec3crd \<Rightarrow> random_generator \<Rightarrow>
   PointRadius list \<Rightarrow> error + (PointRadius list \<times> random_generator)" where
  "sample_triangle vs widths cfg triangle_indices g result =
     (case radiuses_loop widths cfg
             [nth3 triangle_indices 0, nth3 triangle_indices 1, nth3 triangle_indices 2]
             ([], 0) of
        Inl e \<Rightarrow> Inl e
      | Inr None \<Rightarrow> Inr (result, g)
      | Inr (Some (radiuses, area_sum)) \<Rightarrow>
          let area_for_one_support = area_sum / 3
          in case (vget vs (nth3 triangle_indices 0),
                   vget vs (nth3 triangle_indices 1),
                   vget vs (nth3 triangle_indices 2)) of
               (Some v0, Some v1, Some v2) \<Rightarrow>
                 if area_for_one_support = 0 then Inl BadCast
                 else
                   let area = triangle_area3 v0 v1 v2;
                       countf = area / area_for_one_support * multiplicator cfg;
                       int_part_of_count = int_part countf;
                       fraction = countf - real_of_int int_part_of_count;
                       (generate, g1) = uniform01 g;
                       count = (if generate < fraction then int_part_of_count + 1
                                else int_part_of_count)
                   in if count = 0 then Inr (result, g1)
                      else
                        let n = normalize3 (cross (vsub v1 v0) (vsub v2 v0))
                        in if vz n > sample_normal_z_max cfg then Inr (result, g1)
                           else Inr (points_loop (nat count) v0 v1 v2 radiuses g1 result)
             | _ \<Rightarrow> Inl OutOfRange)"

fun triangles_loop ::
  "Vec3f list \<Rightarrow> real list \<Rightarrow> SampleConfig \<Rightarrow> Vec3crd list \<Rightarrow> random_generator \<Rightarrow>
   PointRadius list \<Rightarrow> error + (PointRadius list \<times> random_generator)" where
  "triangles_loop vs widths cfg [] g result = Inr (result, g)"
| "triangles_loop vs widths cfg (triangle_indices # rest) g result =
     (case sample_triangle vs widths cfg triangle_indices g result of
        Inl e \<Rightarrow> Inl e
      | Inr (result', g') \<Rightarrow> triangles_loop vs widths cfg rest g' result')"

text \<open>
  \<open>generate_support_points\<close> returns the points and the generator it leaves behind (the
  C++ function takes the generator by reference).
\<close>

definition generate_support_points ::
  "indexed_triangle_set \<Rightarrow> real list \<Rightarrow> SampleConfig \<Rightarrow> random_generator \<Rightarrow>
   error + (PointRadius list \<times> random_generator)" where
  "generate_support_points its widths cfg random_generator =
     triangles_loop (vertices its) widths cfg (indices its) random_generator []"

section \<open>Subdivision\<close>

text \<open>
  \<^verbatim>\<open>subdivide\<close> (lines 288--498) with its local structs \<^verbatim>\<open>VerticesSequence\<close>, \<^verbatim>\<open>Edges\<close>
  and \<^verbatim>\<open>TriangleLengths\<close>. The fields \<^verbatim>\<open>indices\<close> and \<^verbatim>\<open>l\<close> of \<^verbatim>\<open>TriangleLengths\<close> are
  \<open>tl_indices\<close> and \<open>tl_l\<close> (\<open>indexed_triangle_set\<close> has a field \<open>indices\<close> already).
  \<^verbatim>\<open>EdgeDivides\<close>, a \<^verbatim>\<open>std::map\<close>, is a partial map. All lengths, ratios and vertex
  coordinates are binary32 values: every operation of the code on \<^verbatim>\<open>float\<close> is rounded
  by \<open>f32\<close>.
\<close>

record VerticesSequence =
  start_index :: int
  positive_order :: bool

type_synonym EdgeDivides = "int \<times> int \<rightharpoonup> VerticesSequence"

record Edges =
  data :: "Vec3f Vec3"
  lengths :: Vec3f

record TriangleLengths =
  tl_indices :: Vec3crd
  tl_l :: Vec3f

text \<open>\<^verbatim>\<open>v[i] = x\<close> on a three-component vector.\<close>

fun set3 :: "'a Vec3 \<Rightarrow> nat \<Rightarrow> 'a \<Rightarrow> 'a Vec3" where
  "set3 (Vec3 a b c) i x =
     (if i = 0 then Vec3 x b c else if i = 1 then Vec3 a x c else Vec3 a b x)"

text \<open>The constructor of \<^verbatim>\<open>Edges\<close> (lines 305--314); it reads the three vertices.\<close>

definition Edges_init :: "Vec3crd \<Rightarrow> Vec3f list \<Rightarrow> Edges option" where
  "Edges_init idx vs =
     (case (vget vs (nth3 idx 0), vget vs (nth3 idx 1), vget vs (nth3 idx 2)) of
        (Some v0, Some v1, Some v2) \<Rightarrow>
          Some \<lparr>data = Vec3 (vsub32 v0 v1) (vsub32 v1 v2) (vsub32 v2 v0),
                lengths = Vec3 (- 1) (- 1) (- 1)\<rparr>
      | _ \<Rightarrow> None)"

definition abs_sum :: "Vec3f \<Rightarrow> real" where
  "abs_sum v = f32 (f32 (\<bar>vx v\<bar> + \<bar>vy v\<bar>) + \<bar>vz v\<bar>)"

definition biggest_index :: "Vec3f \<Rightarrow> nat Vec3" where
  "biggest_index s =
     (if nth3 s 0 > nth3 s 1 then
        (if nth3 s 0 > nth3 s 2 then
           (if nth3 s 2 > nth3 s 1 then Vec3 0 2 1 else Vec3 0 1 2)
         else Vec3 2 0 1)
      else
        (if nth3 s 1 > nth3 s 2 then
           (if nth3 s 2 > nth3 s 0 then Vec3 1 2 0 else Vec3 1 0 2)
         else Vec3 2 1 0))"

definition calc_length :: "Edges \<Rightarrow> nat \<Rightarrow> Edges" where
  "calc_length e index = e\<lparr>lengths := set3 (lengths e) index (norm32 (nth3 (data e) index))\<rparr>"

text \<open>
  The loop of \<^verbatim>\<open>is_dividable\<close> (lines 332--344) over the positions that are left in
  \<^verbatim>\<open>biggest_index\<close>; the result is the returned flag and the struct with the lengths
  computed so far.
\<close>

fun is_dividable_loop :: "real \<Rightarrow> Vec3f \<Rightarrow> Edges \<Rightarrow> nat list \<Rightarrow> bool \<times> Edges" where
  "is_dividable_loop max_length s e [] = (False, e)"
| "is_dividable_loop max_length s e (index # rest) =
     (if nth3 s index \<le> max_length then (False, e)
      else
        let e1 = calc_length e index
        in if nth3 (lengths e1) index \<le> max_length
             then is_dividable_loop max_length s e1 rest
           else (True, foldl calc_length e1 rest))"

definition is_dividable :: "real \<Rightarrow> Edges \<Rightarrow> bool \<times> Edges" where
  "is_dividable max_length e =
     (let s = Vec3 (abs_sum (nth3 (data e) 0)) (abs_sum (nth3 (data e) 1))
                   (abs_sum (nth3 (data e) 2));
          b = biggest_index s
      in is_dividable_loop max_length s e [nth3 b 0, nth3 b 1, nth3 b 2])"

definition get_divide_index :: "real \<Rightarrow> TriangleLengths \<Rightarrow> int" where
  "get_divide_index max_length t =
     (if nth3 (tl_l t) 0 > nth3 (tl_l t) 1 \<and> nth3 (tl_l t) 0 > nth3 (tl_l t) 2 then
        (if nth3 (tl_l t) 0 > max_length then 0 else - 1)
      else if nth3 (tl_l t) 1 > nth3 (tl_l t) 2 then
        (if nth3 (tl_l t) 1 > max_length then 1 else - 1)
      else
        (if nth3 (tl_l t) 2 > max_length then 2 else - 1))"

text \<open>The canonical key of an edge and the flag \<^verbatim>\<open>key_swap\<close> (lines 378--383).\<close>

definition edge_key :: "int \<Rightarrow> int \<Rightarrow> (int \<times> int) \<times> bool" where
  "edge_key vi0 vi1 = (if vi0 > vi1 then ((vi1, vi0), True) else ((vi0, vi1), False))"

text \<open>
  The vertices that lines 396--399 push for a new edge. The counter \<^verbatim>\<open>i\<close> is a \<^verbatim>\<open>size_t\<close>
  and is converted to \<^verbatim>\<open>float\<close> for the division.
\<close>

definition new_vertices :: "Vec3f \<Rightarrow> Vec3f \<Rightarrow> int \<Rightarrow> real \<Rightarrow> Vec3f list" where
  "new_vertices vf vs count_edge_vertices count_edge_segments =
     (let dirv = vsub32 vs vf
      in map (\<lambda>i. let ratio = f32 (f32 (real_of_int i) / count_edge_segments)
                  in vadd32 vf (smul32 dirv ratio))
           [1..count_edge_vertices])"

text \<open>
  Lines 389--404: the sequence registered for the key, created with its vertices when the
  key is new.
\<close>

definition find_or_create ::
  "int \<times> int \<Rightarrow> int \<Rightarrow> real \<Rightarrow> Vec3f list \<Rightarrow> EdgeDivides \<Rightarrow>
   error + (VerticesSequence \<times> Vec3f list \<times> EdgeDivides)" where
  "find_or_create key count_edge_vertices count_edge_segments vs edge_divides =
     (case edge_divides key of
        Some sq \<Rightarrow> Inr (sq, vs, edge_divides)
      | None \<Rightarrow>
          (case (vget vs (fst key), vget vs (snd key)) of
             (Some vf, Some vsnd) \<Rightarrow>
               let new_vs = \<lparr>start_index = int (length vs), positive_order = True\<rparr>
               in Inr (new_vs,
                       vs @ new_vertices vf vsnd count_edge_vertices count_edge_segments,
                       edge_divides(key \<mapsto> new_vs))
           | _ \<Rightarrow> Inl OutOfRange))"

text \<open>
  \<^verbatim>\<open>edge_divides.insert\<close> behind the test \<^verbatim>\<open>find(new_key) == end()\<close>: an entry that exists
  is left as it is.
\<close>

definition insert_new :: "EdgeDivides \<Rightarrow> int \<times> int \<Rightarrow> VerticesSequence \<Rightarrow> EdgeDivides" where
  "insert_new edge_divides new_key sq =
     (case edge_divides new_key of None \<Rightarrow> edge_divides(new_key \<mapsto> sq) | Some _ \<Rightarrow> edge_divides)"

text \<open>
  The test \<^verbatim>\<open>index_offset < count_edge_vertices-1\<close> of line 446 compares an \<^verbatim>\<open>int\<close> with
  a \<^verbatim>\<open>size_t\<close>, so it is unsigned: the offset \<open>-1\<close> is the largest \<^verbatim>\<open>size_t\<close> and never
  below anything, and for the count \<open>0\<close> the right-hand side wraps to the largest
  \<^verbatim>\<open>size_t\<close>.
\<close>

definition offset_below_last :: "int \<Rightarrow> int \<Rightarrow> bool" where
  "offset_below_last index_offset count_edge_vertices =
     (0 \<le> index_offset \<and> (count_edge_vertices = 0 \<or> index_offset < count_edge_vertices - 1))"

text \<open>
  \<^verbatim>\<open>TriangleLengths::divide\<close> (lines 368--463): the two triangles, the vertices and the
  registry after the call. The quotient \<^verbatim>\<open>length / max_length\<close> is a \<^verbatim>\<open>float\<close>; the
  conversion of its floor to \<^verbatim>\<open>size_t\<close> is undefined for a negative quotient, for one
  that does not fit the 64 bits of \<^verbatim>\<open>size_t\<close> and for a division by zero: the error
  \<open>BadCast\<close>. The count and \<^verbatim>\<open>1 + index_offset\<close> are
  converted to \<^verbatim>\<open>float\<close>.
\<close>

definition divide ::
  "nat \<Rightarrow> real \<Rightarrow> TriangleLengths \<Rightarrow> Vec3f list \<Rightarrow> EdgeDivides \<Rightarrow>
   error + ((TriangleLengths \<times> TriangleLengths) \<times> Vec3f list \<times> EdgeDivides)" where
  "divide divide_index max_length t vs edge_divides =
     (let i0 = divide_index;
          i1 = (divide_index + 1) mod 3;
          vi0 = nth3 (tl_indices t) i0;
          vi1 = nth3 (tl_indices t) i1;
          (key, key_swap) = edge_key vi0 vi1;
          len = nth3 (tl_l t) divide_index;
          quotient = f32 (len / max_length)
      in if max_length = 0 \<or> quotient < 0 \<or> 2 ^ 64 \<le> quotient then Inl BadCast
         else
           let count_edge_vertices = \<lfloor>quotient\<rfloor>;
               count_edge_segments = f32 (real_of_int (count_edge_vertices + 1))
           in case find_or_create key count_edge_vertices count_edge_segments vs edge_divides of
                Inl e \<Rightarrow> Inl e
              | Inr (sq, vs1, edge_divides1) \<Rightarrow>
                  let i2 = (divide_index + 2) mod 3;
                      index_offset =
                        (if count_edge_vertices mod 2 = 0
                            \<and> (key_swap = (nth3 (tl_l t) i1 < nth3 (tl_l t) i2))
                         then count_edge_vertices div 2 - 1
                         else count_edge_vertices div 2);
                      sgn = (if positive_order sq then 1 else - 1);
                      new_index = start_index sq + sgn * index_offset;
                      vi2 = nth3 (tl_indices t) i2
                  in case (vget vs1 vi2, vget vs1 new_index) of
                       (Some v2, Some vn) \<Rightarrow>
                         let new_len = norm32 (vsub32 v2 vn);
                             ratio = f32 (f32 (real_of_int (1 + index_offset))
                                            / count_edge_segments);
                             len1 = f32 (nth3 (tl_l t) i0 * ratio);
                             len2 = f32 (nth3 (tl_l t) i0 - len1);
                             indices1 = Vec3 vi0 new_index vi2;
                             lengths1 = Vec3 (if key_swap then len2 else len1) new_len
                                          (nth3 (tl_l t) i2);
                             indices2 = Vec3 new_index vi1 vi2;
                             lengths2 = Vec3 (if key_swap then len1 else len2)
                                          (nth3 (tl_l t) i1) new_len;
                             edge_divides2 =
                               (if index_offset > 0 then
                                  (if fst key > new_index
                                   then insert_new edge_divides1 (new_index, fst key)
                                          \<lparr>start_index = new_index - sgn,
                                           positive_order = \<not> positive_order sq\<rparr>
                                   else insert_new edge_divides1 (fst key, new_index) sq)
                                else edge_divides1);
                             edge_divides3 =
                               (if offset_below_last index_offset count_edge_vertices then
                                  (if new_index > snd key
                                   then insert_new edge_divides2 (snd key, new_index)
                                          \<lparr>start_index =
                                             start_index sq + sgn * (count_edge_vertices - 1),
                                           positive_order = \<not> positive_order sq\<rparr>
                                   else insert_new edge_divides2 (new_index, snd key)
                                          \<lparr>start_index = new_index + sgn,
                                           positive_order = positive_order sq\<rparr>)
                                else edge_divides2)
                         in Inr ((\<lparr>tl_indices = indices1, tl_l = lengths1\<rparr>,
                                  \<lparr>tl_indices = indices2, tl_l = lengths2\<rparr>),
                                 vs1, edge_divides3)
                     | _ \<Rightarrow> Inl OutOfRange)"





section \<open>Notions of the statements\<close>

text \<open>A width that lies in \<open>[0, max_width]\<close>: the test of line 176 fails for it.\<close>

definition in_needs :: "SampleConfig \<Rightarrow> real \<Rightarrow> bool" where
  "in_needs cfg width = (0 \<le> width \<and> width \<le> max_width cfg)"

text \<open>The argument of the cosine for the angle of 90 degrees.\<close>

definition arg90 :: real where
  "arg90 = f64 (f64 (f64 (90 / 2) * M_PI) / 180)"

text \<open>
  A probe for the examples: the rotation is the identity, and every ray hits the
  triangle 0 at the distance of its first component.
\<close>

definition probe_rot :: "real \<Rightarrow> Vec3f \<Rightarrow> Vec3f \<Rightarrow> Vec3f" where
  "probe_rot angle axis ray = ray"

definition probe_hit :: "Vec3f \<Rightarrow> Vec3f \<Rightarrow> Hit option" where
  "probe_hit ray_point ray = Some (Hit 0 (vx ray))"

definition probe_dir :: "real \<Rightarrow> real \<Rightarrow> Direction" where
  "probe_dir t w = \<lparr>dir = Vec3 t 0 0, weight = w\<rparr>"

text \<open>
  Two direction sets for the probe: two hits at the distances \<open>1\<close> and \<open>3\<close> with the
  weights \<open>-1\<close>, and three hits at the distance \<open>6863979 / 2\<^sup>2\<^sup>1\<close> (the \<^verbatim>\<open>float\<close>
  \<open>3.27300024\<close>) with the weights \<open>1\<close>.
\<close>

definition negative_weights_config :: RaysConfig where
  "negative_weights_config =
     \<lparr>dirs = [probe_dir 1 (- 1), probe_dir 3 (- 1)],
      safe_move = 1 / 2, normal_z_max = 1 / 2, allowed_angle = 1, allowed_deviation = 2,
      is_angle_filtering = False, is_deviation_filtering = True\<rparr>"

definition equal_hits_config :: RaysConfig where
  "equal_hits_config =
     \<lparr>dirs = [probe_dir (6863979 / 2097152) 1, probe_dir (6863979 / 2097152) 1,
              probe_dir (6863979 / 2097152) 1],
      safe_move = 1 / 16, normal_z_max = 1 / 2, allowed_angle = 1, allowed_deviation = 1,
      is_angle_filtering = False, is_deviation_filtering = True\<rparr>"






definition seq_sign :: "VerticesSequence \<Rightarrow> int" where
  "seq_sign sq = (if positive_order sq then 1 else - 1)"

definition seq_index :: "VerticesSequence \<Rightarrow> int \<Rightarrow> int" where
  "seq_index sq i = start_index sq + seq_sign sq * i"

definition choose_offset :: "int \<Rightarrow> bool \<Rightarrow> real \<Rightarrow> real \<Rightarrow> int" where
  "choose_offset n key_swap l1 l2 =
     (if n mod 2 = 0 \<and> (key_swap = (l1 < l2)) then n div 2 - 1 else n div 2)"

definition register_first ::
  "EdgeDivides \<Rightarrow> int \<Rightarrow> int \<Rightarrow> VerticesSequence \<Rightarrow> int \<Rightarrow> EdgeDivides" where
  "register_first E1 u new_index sq k =
     (if k > 0 then
        (if u > new_index
         then insert_new E1 (new_index, u)
                \<lparr>start_index = new_index - seq_sign sq, positive_order = \<not> positive_order sq\<rparr>
         else insert_new E1 (u, new_index) sq)
      else E1)"

definition register_second ::
  "EdgeDivides \<Rightarrow> int \<Rightarrow> int \<Rightarrow> VerticesSequence \<Rightarrow> int \<Rightarrow> int \<Rightarrow> EdgeDivides" where
  "register_second E2 w new_index sq k n =
     (if offset_below_last k n then
        (if new_index > w
         then insert_new E2 (w, new_index)
                \<lparr>start_index = start_index sq + seq_sign sq * (n - 1),
                 positive_order = \<not> positive_order sq\<rparr>
         else insert_new E2 (new_index, w)
                \<lparr>start_index = new_index + seq_sign sq, positive_order = positive_order sq\<rparr>)
      else E2)"

definition split_count :: "real \<Rightarrow> TriangleLengths \<Rightarrow> nat \<Rightarrow> int" where
  "split_count m t di = \<lfloor>f32 (nth3 (tl_l t) di / m)\<rfloor>"


text \<open>
  The triangles that the queue loop can hold when it starts from the triangle \<open>t\<close>: \<open>t\<close>
  itself and the two triangles of every split of one of them.
\<close>

inductive descends :: "real \<Rightarrow> TriangleLengths \<Rightarrow> TriangleLengths \<Rightarrow> bool"
  for m :: real and t :: TriangleLengths where
  descends_refl: "descends m t t"
| descends_first:
    "descends m t s \<Longrightarrow> get_divide_index m s = int di \<Longrightarrow>
     divide di m s V E = Inr ((t1, t2), V', E') \<Longrightarrow> descends m t t1"
| descends_second:
    "descends m t s \<Longrightarrow> get_divide_index m s = int di \<Longrightarrow>
     divide di m s V E = Inr ((t1, t2), V', E') \<Longrightarrow> descends m t t2"

text \<open>
  An equilateral triangle of side \<open>3.75\<close> in binary32 (the third vertex is
  \<open>(1.875, 3.75 * \<surd>3 / 2, 0)\<close> rounded) and the bound \<^verbatim>\<open>0.15f\<close>.
\<close>

definition tri_vertices :: "Vec3f list" where
  "tri_vertices = [Vec3 0 0 0, Vec3 (15 / 4) 0 0, Vec3 (15 / 8) (6810701 / 2097152) 0]"

definition tri_max_length :: real where
  "tri_max_length = 5033165 / 33554432"

definition tri_edges :: Edges where
  "tri_edges = \<lparr>data = Vec3 (Vec3 (- (15 / 4)) 0 0)
                             (Vec3 (15 / 8) (- (6810701 / 2097152)) 0)
                             (Vec3 (15 / 8) (6810701 / 2097152) 0),
                 lengths = Vec3 (- 1) (- 1) (- 1)\<rparr>"

definition tri_lengths :: TriangleLengths where
  "tri_lengths = \<lparr>tl_indices = Vec3 0 1 2, tl_l = Vec3 (15 / 4) (15 / 4) (15 / 4)\<rparr>"

section \<open>Binary floating point: proofs\<close>

lemma pow2_pos [simp]: "0 < pow2 e"
  by (simp add: pow2_def)

lemma pow2_nonneg [simp]: "0 \<le> pow2 e"
  by (simp add: pow2_def)

lemma pow2_add: "pow2 (a + b) = pow2 a * pow2 b"
  by (simp add: pow2_def powr_add)

lemma pow2_nat: "pow2 (int n) = 2 ^ n"
  by (simp add: pow2_def powr_realpow)

lemma pow2_0 [simp]: "pow2 0 = 1"
  by (simp add: pow2_def)

lemma pow2_less_iff: "pow2 a < pow2 b \<longleftrightarrow> a < b"
  by (simp add: pow2_def)

lemma pow2_le_iff: "pow2 a \<le> pow2 b \<longleftrightarrow> a \<le> b"
  by (simp add: pow2_def)

lemma rne_of_int [simp]: "rne (of_int n) = n"
  by (simp add: rne_def)

lemma rne_upper: "of_int (rne y) \<le> y + 1 / 2"
  unfolding rne_def Let_def by (auto; linarith)

lemma rne_lower: "y - 1 / 2 \<le> of_int (rne y)"
  unfolding rne_def Let_def by (auto; linarith)

lemma rne_mono:
  assumes "x \<le> y"
  shows "rne x \<le> rne y"
proof (rule ccontr)
  assume "\<not> rne x \<le> rne y"
  then have lt: "rne y + 1 \<le> rne x" by simp
  have a: "real_of_int (rne x) \<le> x + 1 / 2" by (rule rne_upper)
  have b: "y - 1 / 2 \<le> real_of_int (rne y)" by (rule rne_lower)
  have c: "real_of_int (rne y) + 1 \<le> real_of_int (rne x)"
    using lt by (metis of_int_1 of_int_add of_int_le_iff)
  have xy: "x = y" using a b c assms by linarith
  have rx: "real_of_int (rne x) = x + 1 / 2" using a b c assms by linarith
  have fx: "\<lfloor>x\<rfloor> = rne x - 1"
    by (rule floor_unique) (use rx in simp_all)
  have frac: "x - real_of_int \<lfloor>x\<rfloor> = 1 / 2" unfolding fx using rx by simp
  have "rne x = (if even \<lfloor>x\<rfloor> then \<lfloor>x\<rfloor> else \<lfloor>x\<rfloor> + 1)"
    unfolding rne_def Let_def frac by simp
  with lt xy show False by (simp split: if_splits)
qed

lemma fl_zero [simp]: "fl p 0 = 0"
  by (simp add: fl_def)

lemma fl_minus: "fl p (- x) = - fl p x"
  by (simp add: fl_def ulp_def sgn_if)

text \<open>The rounding of a positive number, once the binade is known.\<close>

lemma fl_pos:
  fixes x :: real
  assumes "pow2 e \<le> x" and "x < pow2 (e + 1)"
  shows "fl p x = of_int (rne (x / pow2 (e - int p + 1))) * pow2 (e - int p + 1)"
proof -
  have x0: "0 < x" using assms(1) pow2_pos [of e] by linarith
  have "\<lfloor>log 2 x\<rfloor> = e"
    using floor_log_eq_powr_iff [of x 2 e] assms x0 by (simp add: pow2_def)
  then show ?thesis using x0 by (simp add: fl_def ulp_def)
qed

lemma binade:
  fixes x :: real
  assumes "0 < x"
  obtains e :: int where "pow2 e \<le> x" and "x < pow2 (e + 1)"
proof -
  from floor_log_eq_powr_iff [of x 2 "\<lfloor>log 2 x\<rfloor>"] assms
  have "pow2 \<lfloor>log 2 x\<rfloor> \<le> x \<and> x < pow2 (\<lfloor>log 2 x\<rfloor> + 1)" by (simp add: pow2_def)
  then show ?thesis using that by blast
qed

lemma fl_pos_range:
  fixes x :: real
  assumes "pow2 e \<le> x" and "x < pow2 (e + 1)" and p: "1 \<le> p"
  shows "pow2 e \<le> fl p x" and "fl p x \<le> pow2 (e + 1)"
proof -
  define u where "u = pow2 (e - int p + 1)"
  have u0: "0 < u" by (simp add: u_def)
  have "pow2 e = pow2 (int (p - 1) + (e - int p + 1))" using p by (simp add: of_nat_diff)
  then have lo: "pow2 e = 2 ^ (p - 1) * u" unfolding u_def pow2_add pow2_nat .
  have "pow2 (e + 1) = pow2 (int p + (e - int p + 1))" by simp
  then have hi: "pow2 (e + 1) = 2 ^ p * u" unfolding u_def pow2_add pow2_nat .
  have "real_of_int (2 ^ (p - 1)) \<le> x / u"
    using assms(1) u0 unfolding lo by (simp add: pos_le_divide_eq)
  then have "rne (real_of_int (2 ^ (p - 1))) \<le> rne (x / u)" by (rule rne_mono)
  then have a: "2 ^ (p - 1) \<le> rne (x / u)" unfolding rne_of_int .
  have "x / u \<le> real_of_int (2 ^ p)"
    using assms(2) u0 unfolding hi by (simp add: pos_divide_le_eq)
  then have "rne (x / u) \<le> rne (real_of_int (2 ^ p))" by (rule rne_mono)
  then have b: "rne (x / u) \<le> 2 ^ p" unfolding rne_of_int .
  have f: "fl p x = of_int (rne (x / u)) * u"
    unfolding u_def by (rule fl_pos [OF assms(1,2)])
  have "real_of_int (2 ^ (p - 1)) \<le> of_int (rne (x / u))" using a by (simp only: of_int_le_iff)
  then have "2 ^ (p - 1) * u \<le> of_int (rne (x / u)) * u"
    using u0 by simp
  then show "pow2 e \<le> fl p x" unfolding f lo .
  have "real_of_int (rne (x / u)) \<le> of_int (2 ^ p)" using b by (simp only: of_int_le_iff)
  then have "of_int (rne (x / u)) * u \<le> 2 ^ p * u"
    using u0 by simp
  then show "fl p x \<le> pow2 (e + 1)" unfolding f hi .
qed

lemma fl_pos_gt:
  fixes x :: real
  assumes "0 < x" and "1 \<le> p"
  shows "0 < fl p x"
proof -
  from binade [OF assms(1)] obtain e :: int where
    e: "pow2 e \<le> x" "x < pow2 (e + 1)" by blast
  from fl_pos_range(1) [OF e assms(2)] pow2_pos [of e] show ?thesis by linarith
qed

lemma fl_mono_pos:
  fixes x y :: real
  assumes "0 < x" and "x \<le> y" and p: "1 \<le> p"
  shows "fl p x \<le> fl p y"
proof -
  from binade [OF assms(1)] obtain e :: int where
    e: "pow2 e \<le> x" "x < pow2 (e + 1)" by blast
  have y0: "0 < y" using assms by linarith
  from binade [OF y0] obtain e' :: int where
    e': "pow2 e' \<le> y" "y < pow2 (e' + 1)" by blast
  have "pow2 e < pow2 (e' + 1)" using e(1) e'(2) assms(2) by linarith
  then have le: "e \<le> e'" unfolding pow2_less_iff by simp
  show ?thesis
  proof (cases "e = e'")
    case True
    define u where "u = pow2 (e - int p + 1)"
    have u0: "0 < u" by (simp add: u_def)
    have "x / u \<le> y / u" using assms(2) u0 by (simp add: divide_right_mono)
    then have "rne (x / u) \<le> rne (y / u)" by (rule rne_mono)
    then have "real_of_int (rne (x / u)) \<le> of_int (rne (y / u))" by (simp only: of_int_le_iff)
    then have "of_int (rne (x / u)) * u \<le> of_int (rne (y / u)) * u"
      using u0 by simp
    then show ?thesis
      unfolding fl_pos [OF e] fl_pos [OF e' [folded True]] u_def .
  next
    case False
    then have "e + 1 \<le> e'" using le by simp
    then have "pow2 (e + 1) \<le> pow2 e'" unfolding pow2_le_iff .
    with fl_pos_range(2) [OF e p] fl_pos_range(1) [OF e' p] show ?thesis by linarith
  qed
qed

lemma fl_mono:
  fixes x y :: real
  assumes "x \<le> y" and p: "1 \<le> p"
  shows "fl p x \<le> fl p y"
proof -
  consider "0 < x" | "x = 0" "0 < y" | "x = 0" "y = 0" | "x < 0" "0 \<le> y" | "x < 0" "y < 0"
    using assms(1) by linarith
  then show ?thesis
  proof cases
    case 1
    then show ?thesis by (rule fl_mono_pos [OF _ assms])
  next
    case 2
    then show ?thesis using fl_pos_gt [OF 2(2) p] by simp
  next
    case 3
    then show ?thesis by simp
  next
    case 4
    have "0 < fl p (- x)" by (rule fl_pos_gt [OF _ p]) (use 4 in simp)
    then have a: "fl p x < 0" by (simp add: fl_minus)
    have "0 \<le> fl p y"
    proof (cases "y = 0")
      case True
      then show ?thesis by simp
    next
      case False
      with 4 have "0 < y" by simp
      from fl_pos_gt [OF this p] show ?thesis by simp
    qed
    with a show ?thesis by linarith
  next
    case 5
    have "fl p (- y) \<le> fl p (- x)"
      by (rule fl_mono_pos [OF _ _ p]) (use 5 assms(1) in simp_all)
    then show ?thesis by (simp add: fl_minus)
  qed
qed

text \<open>Numbers with a significand of at most \<open>p\<close> bits are not changed.\<close>

lemma fl_exact_pos:
  assumes k: "0 < k" "k < 2 ^ p" and p: "1 \<le> p"
  shows "fl p (of_int k * pow2 j) = of_int k * pow2 j"
proof -
  have k0: "0 < real_of_int k" using k by simp
  from binade [OF k0] obtain e :: int where
    e: "pow2 e \<le> real_of_int k" "real_of_int k < pow2 (e + 1)" by blast
  have "real_of_int k < real_of_int (2 ^ p)" using k(2) by (simp only: of_int_less_iff)
  moreover have "pow2 (int p) = real_of_int (2 ^ p)" by (simp add: pow2_nat)
  ultimately have "pow2 e < pow2 (int p)" using e(1) by linarith
  then have ep: "e < int p" unfolding pow2_less_iff .
  define x where "x = of_int k * pow2 j"
  have b1: "pow2 (e + j) \<le> x"
    unfolding x_def pow2_add using e(1) by (intro mult_right_mono) simp_all
  have "x < pow2 (e + 1) * pow2 j"
    unfolding x_def using e(2) by (intro mult_strict_right_mono) simp_all
  then have b2: "x < pow2 (e + j + 1)"
    unfolding pow2_add [symmetric] by (simp add: algebra_simps)
  define s where "s = nat (int p - 1 - e)"
  have s: "int s = int p - 1 - e" unfolding s_def using ep by simp
  define u where "u = pow2 (e + j - int p + 1)"
  have u0: "0 < u" by (simp add: u_def)
  have "pow2 j = pow2 (int s + (e + j - int p + 1))" using s by simp
  then have ju: "pow2 j = 2 ^ s * u" unfolding u_def pow2_add pow2_nat .
  have q: "x / u = real_of_int (k * 2 ^ s)"
    unfolding x_def ju using u0 by simp
  have "fl p x = of_int (rne (x / u)) * u"
    unfolding u_def by (rule fl_pos [OF b1 b2])
  also have "\<dots> = real_of_int (k * 2 ^ s) * u" by (simp only: q rne_of_int)
  also have "\<dots> = x" unfolding x_def ju by simp
  finally show ?thesis unfolding x_def .
qed

lemma fl_exact:
  assumes k: "\<bar>k\<bar> < 2 ^ p" and p: "1 \<le> p"
  shows "fl p (of_int k * pow2 j) = of_int k * pow2 j"
proof -
  consider "0 < k" | "k = 0" | "k < 0" by linarith
  then show ?thesis
  proof cases
    case 1
    then show ?thesis using fl_exact_pos [of k p j] k p by simp
  next
    case 2
    then show ?thesis by simp
  next
    case 3
    then have "fl p (of_int (- k) * pow2 j) = of_int (- k) * pow2 j"
      using fl_exact_pos [of "- k" p j] k p by simp
    then have "fl p (- (of_int k * pow2 j)) = - (of_int k * pow2 j)"
      by simp
    then show ?thesis unfolding fl_minus by simp
  qed
qed

lemma pow2_neg_nat: "pow2 (- int n) = 1 / 2 ^ n"
proof -
  have "pow2 (- int n) * pow2 (int n) = 1"
    unfolding pow2_add [symmetric] by simp
  then show ?thesis by (simp add: pow2_nat field_simps)
qed

lemma fl_dyadic:
  assumes "\<bar>k\<bar> < 2 ^ p" and "1 \<le> p"
  shows "fl p (real_of_int k / 2 ^ n) = real_of_int k / 2 ^ n"
  using fl_exact [OF assms, of "- int n"] by (simp add: pow2_neg_nat)

lemma f32_dyadic:
  assumes "\<bar>k\<bar> < 16777216"
  shows "f32 (real_of_int k / 2 ^ n) = real_of_int k / 2 ^ n"
  unfolding f32_def by (rule fl_dyadic) (use assms in simp_all)

lemma f32_int:
  assumes "\<bar>k\<bar> < 16777216"
  shows "f32 (real_of_int k) = real_of_int k"
  using f32_dyadic [OF assms, of 0] by simp

lemma f32_mono: "x \<le> y \<Longrightarrow> f32 x \<le> f32 y"
  unfolding f32_def by (rule fl_mono) simp_all

lemma f64_mono: "x \<le> y \<Longrightarrow> f64 x \<le> f64 y"
  unfolding f64_def by (rule fl_mono) simp_all

lemma f32_zero [simp]: "f32 0 = 0"
  by (simp add: f32_def)

lemma f64_zero [simp]: "f64 0 = 0"
  by (simp add: f64_def)

lemma f32_minus: "f32 (- x) = - f32 x"
  by (simp add: f32_def fl_minus)


lemma f64_dyadic:
  assumes "\<bar>k\<bar> < 9007199254740992"
  shows "f64 (real_of_int k / 2 ^ n) = real_of_int k / 2 ^ n"
  unfolding f64_def by (rule fl_dyadic) (use assms in simp_all)

lemma f64_int:
  assumes "\<bar>k\<bar> < 9007199254740992"
  shows "f64 (real_of_int k) = real_of_int k"
  using f64_dyadic [OF assms, of 0] by simp

lemma f64_one [simp]: "f64 1 = 1"
  using f64_int [of 1] by simp

lemma f32_one [simp]: "f32 1 = 1"
  using f32_int [of 1] by simp

text \<open>The relative error of a rounding is at most \<open>2\<^sup>-\<^sup>p\<close>.\<close>

lemma fl_error:
  fixes x :: real
  assumes "0 < x"
  shows "x * (1 - 1 / 2 ^ p) \<le> fl p x" and "fl p x \<le> x * (1 + 1 / 2 ^ p)"
proof -
  from binade [OF assms] obtain e where e: "pow2 e \<le> x" "x < pow2 (e + 1)" by blast
  define u where "u = pow2 (e - int p + 1)"
  have u0: "0 < u" by (simp add: u_def)
  have fx: "fl p x = of_int (rne (x / u)) * u"
    unfolding u_def by (rule fl_pos [OF e])
  have "pow2 (e - int p + 1) = pow2 e * pow2 (- int p) * pow2 1"
    by (simp add: pow2_add [symmetric])
  then have "u = pow2 e * (1 / 2 ^ p) * 2"
    using pow2_nat [of 1] by (simp add: u_def pow2_neg_nat)
  then have half: "u / 2 = pow2 e * (1 / 2 ^ p)" by simp
  have "pow2 e * (1 / 2 ^ p) \<le> x * (1 / 2 ^ p)"
    using e(1) by (intro mult_right_mono) simp_all
  with half have hu: "u / 2 \<le> x * (1 / 2 ^ p)" by simp
  have lo: "x / u - 1 / 2 \<le> of_int (rne (x / u))" by (rule rne_lower)
  have hi: "of_int (rne (x / u)) \<le> x / u + 1 / 2" by (rule rne_upper)
  have "(x / u - 1 / 2) * u \<le> of_int (rne (x / u)) * u"
    using lo u0 by (intro mult_right_mono) simp_all
  moreover have "(x / u - 1 / 2) * u = x - u / 2" using u0 by (simp add: field_simps)
  ultimately have "x - u / 2 \<le> fl p x" by (simp only: fx)
  moreover have "x * (1 - 1 / 2 ^ p) = x - x * (1 / 2 ^ p)" by (simp add: algebra_simps)
  ultimately show "x * (1 - 1 / 2 ^ p) \<le> fl p x" using hu by linarith
  have "of_int (rne (x / u)) * u \<le> (x / u + 1 / 2) * u"
    using hi u0 by (intro mult_right_mono) simp_all
  moreover have "(x / u + 1 / 2) * u = x + u / 2" using u0 by (simp add: field_simps)
  ultimately have "fl p x \<le> x + u / 2" by (simp only: fx)
  moreover have "x * (1 + 1 / 2 ^ p) = x + x * (1 / 2 ^ p)" by (simp add: algebra_simps)
  ultimately show "fl p x \<le> x * (1 + 1 / 2 ^ p)" using hu by linarith
qed

lemma fl_pos_eval:
  fixes x :: real
  assumes "pow2 e \<le> x" and "x < pow2 (e + 1)" and "rne (x / pow2 (e - int p + 1)) = r"
  shows "fl p x = of_int r * pow2 (e - int p + 1)"
  using fl_pos [OF assms(1,2), of p] assms(3) by simp

lemma f64_pos: "0 < x \<Longrightarrow> 0 < f64 x"
  unfolding f64_def by (rule fl_pos_gt) simp_all

lemma f64_nonneg: "0 \<le> x \<Longrightarrow> 0 \<le> f64 x"
  using f64_mono [of 0 x] by simp

lemma pow2_numeral: "pow2 (numeral n) = 2 ^ numeral n"
  using pow2_nat [of "numeral n"] by simp

lemma pow2_neg_numeral: "pow2 (- numeral n) = 1 / 2 ^ numeral n"
  using pow2_neg_nat [of "numeral n"] by simp

lemma pow2_one: "pow2 1 = 2"
  using pow2_nat [of 1] by simp

lemma pow2_neg_one: "pow2 (- 1) = 1 / 2"
  using pow2_neg_nat [of 1] by simp

lemmas pow2_eval = pow2_numeral pow2_neg_numeral pow2_one pow2_neg_one pow2_0

text \<open>The binary32 rounding of a positive number from its binade and its rounded quotient.\<close>

lemma f32_eval_pos:
  fixes x :: real
  assumes "pow2 e \<le> x" and "x < pow2 (e + 1)" and "rne (x / pow2 (e - 23)) = r"
    and "y = of_int r * pow2 (e - 23)"
  shows "f32 x = y"
proof -
  have "fl 24 x = of_int r * pow2 (e - int 24 + 1)"
    by (rule fl_pos_eval [OF assms(1,2)]) (use assms(3) in simp)
  then show ?thesis by (simp add: f32_def assms(4))
qed

lemma f32_dyadic_eq:
  assumes "x = real_of_int k / 2 ^ n" and "\<bar>k\<bar> < 16777216"
  shows "f32 x = x"
  unfolding assms(1) by (rule f32_dyadic [OF assms(2)])

lemma f32_numeral:
  "numeral k < (16777216 :: int) \<Longrightarrow> f32 (numeral k) = numeral k"
  using f32_int [of "numeral k"] by simp

lemma f32_numeral_div:
  assumes "numeral k < (16777216 :: int)"
  shows "f32 (numeral k / 2) = numeral k / 2" "f32 (numeral k / 4) = numeral k / 4"
    "f32 (numeral k / 8) = numeral k / 8" "f32 (numeral k / 16) = numeral k / 16"
  using f32_dyadic [of "numeral k" 1] f32_dyadic [of "numeral k" 2]
    f32_dyadic [of "numeral k" 3] f32_dyadic [of "numeral k" 4] assms
  by simp_all

lemma f32_unit_div:
  "f32 (1 / 2) = 1 / 2" "f32 (1 / 4) = 1 / 4" "f32 (1 / 8) = 1 / 8" "f32 (1 / 16) = 1 / 16"
  using f32_dyadic [of 1 1] f32_dyadic [of 1 2] f32_dyadic [of 1 3] f32_dyadic [of 1 4]
  by simp_all

lemmas f32_exact = f32_numeral f32_numeral_div f32_unit_div f32_minus f32_one f32_zero

section \<open>Poisson filter: proofs\<close>

lemma grid_of_snoc: "grid_of ins g0 (ps @ [p]) = ins (grid_of ins g0 ps) (point p)"
  by (simp add: grid_of_def)

lemma clear_of_snoc:
  assumes "clear_of cw ins grid g0 res"
    and "\<not> cw grid (point s) (radius s)"
    and "\<not> cw (grid_of ins g0 res) (point s) (radius s)"
  shows "clear_of cw ins grid g0 (res @ [s])"
  unfolding clear_of_def
proof (intro allI impI)
  fix i assume "i < length (res @ [s])"
  then consider "i < length res" | "i = length res" by fastforce
  then show "\<not> cw grid (point ((res @ [s]) ! i)) (radius ((res @ [s]) ! i)) \<and>
        \<not> cw (grid_of ins g0 (take i (res @ [s]))) (point ((res @ [s]) ! i))
             (radius ((res @ [s]) ! i))"
  proof cases
    case 1
    with assms(1) show ?thesis by (simp add: clear_of_def nth_append)
  next
    case 2
    with assms(2,3) show ?thesis by (simp add: nth_append)
  qed
qed

lemma poisson_loop_skip:
  "cw g (point s) (radius s) \<or> cw grid (point s) (radius s) \<Longrightarrow>
   poisson_loop cw ins grid (s # ss) g res = poisson_loop cw ins grid ss g res"
  by (erule disjE) (simp_all add: Let_def)

lemma poisson_loop_accept:
  "\<not> cw g (point s) (radius s) \<Longrightarrow> \<not> cw grid (point s) (radius s) \<Longrightarrow>
   poisson_loop cw ins grid (s # ss) g res =
   poisson_loop cw ins grid ss (ins g (point s)) (res @ [s])"
  by (simp add: Let_def)

lemma poisson_loop_clear:
  "clear_of cw ins grid g0 res \<Longrightarrow>
   clear_of cw ins grid g0 (poisson_loop cw ins grid ss (grid_of ins g0 res) res)"
proof (induction ss arbitrary: res)
  case Nil
  then show ?case by simp
next
  case (Cons s ss)
  show ?case
  proof (cases "cw (grid_of ins g0 res) (point s) (radius s) \<or> cw grid (point s) (radius s)")
    case True
    show ?thesis
      unfolding poisson_loop_skip [where cw = cw and g = "grid_of ins g0 res" and grid = grid, OF True]
      by (rule Cons.IH [OF Cons.prems])
  next
    case False
    then have n1: "\<not> cw (grid_of ins g0 res) (point s) (radius s)"
      and n2: "\<not> cw grid (point s) (radius s)" by simp_all
    have c: "clear_of cw ins grid g0 (res @ [s])"
      by (rule clear_of_snoc [where cw = cw and grid = grid, OF Cons.prems n2 n1])
    show ?thesis
      unfolding poisson_loop_accept [where cw = cw and g = "grid_of ins g0 res" and grid = grid, OF n1 n2]
        grid_of_snoc [symmetric]
      by (rule Cons.IH [OF c])
  qed
qed

lemma poisson_loop_subseq:
  "\<exists>ys. poisson_loop cw ins grid ss g res = res @ ys \<and> subseq ys ss"
proof (induction ss arbitrary: g res)
  case Nil
  then show ?case by simp
next
  case (Cons s ss)
  show ?case
  proof (cases "cw g (point s) (radius s) \<or> cw grid (point s) (radius s)")
    case True
    obtain ys where ys: "poisson_loop cw ins grid ss g res = res @ ys" "subseq ys ss"
      using Cons.IH by blast
    have "subseq ys (s # ss)" using ys(2) by (rule list_emb_Cons)
    with ys(1) show ?thesis
      unfolding poisson_loop_skip [where cw = cw and g = g and grid = grid, OF True] by blast
  next
    case False
    then have n1: "\<not> cw g (point s) (radius s)"
      and n2: "\<not> cw grid (point s) (radius s)" by simp_all
    obtain ys where ys: "poisson_loop cw ins grid ss (ins g (point s)) (res @ [s]) = (res @ [s]) @ ys"
      "subseq ys ss"
      using Cons.IH by blast
    have "subseq (s # ys) (s # ss)" using ys(2) by simp
    moreover have "poisson_loop cw ins grid (s # ss) g res = res @ (s # ys)"
      unfolding poisson_loop_accept [where cw = cw and g = g and grid = grid, OF n1 n2] ys(1) by simp
    ultimately show ?thesis by blast
  qed
qed
lemma subseq_sorted_map:
  assumes "subseq ys xs" and "sorted (map f xs)"
  shows "sorted (map f ys)"
proof -
  from assms(1) have "subseq (map f ys) (map f xs)" by (rule subseq_map)
  then obtain N where "map f ys = nths (map f xs) N" unfolding subseq_conv_nths ..
  with assms(2) show ?thesis by (simp add: sorted_nths)
qed

text \<open>
  C5. Every point accepted by \<open>poisson_sphere_from_samples\<close> collides, at its own
  radius, neither with the external grid nor with the local grid holding the points
  accepted before it; the accepted points are a subsequence of the candidates sorted by
  ascending radius, so they were processed (and are returned) in ascending order of
  radius.
\<close>

theorem poisson_accepts_only_clear_points:
  assumes "poisson_sphere_from_samples cw ins mk samples grid = Inr res"
  shows "clear_of cw ins grid
           (mk (Vec3 (radius (last (sort_key radius samples)))
                     (radius (last (sort_key radius samples)))
                     (radius (last (sort_key radius samples))))) res
         \<and> subseq res (sort_key radius samples)
         \<and> sorted (map radius (sort_key radius samples))
         \<and> sorted (map radius res)"
proof -
  let ?ss = "sort_key radius samples"
  let ?g0 = "mk (Vec3 (radius (last ?ss)) (radius (last ?ss)) (radius (last ?ss)))"
  from assms have res: "res = poisson_loop cw ins grid ?ss ?g0 []"
    by (auto simp: poisson_sphere_from_samples_def Let_def split: if_splits)
  have c0: "clear_of cw ins grid ?g0 []" by (simp add: clear_of_def)
  have g0: "grid_of ins ?g0 [] = ?g0" by (simp add: grid_of_def)
  have 1: "clear_of cw ins grid ?g0 res"
    using poisson_loop_clear [OF c0, of ?ss] unfolding g0 res .
  obtain ys where ys: "poisson_loop cw ins grid ?ss ?g0 [] = [] @ ys" "subseq ys ?ss"
    using poisson_loop_subseq [of cw ins grid ?ss ?g0 "[]"] by blast
  then have 2: "subseq res ?ss" by (simp add: res)
  have 3: "sorted (map radius ?ss)" by (rule sorted_sort_key)
  from 1 2 3 subseq_sorted_map [OF 2 3] show ?thesis by blast
qed

theorem poisson_accepts_only_clear_points_witness:
  "poisson_sphere_from_samples list_collides_with list_insert list_grid
     [\<lparr>point = Vec3 3 0 0, radius = 2\<rparr>, \<lparr>point = Vec3 0 0 0, radius = 1\<rparr>,
      \<lparr>point = Vec3 1 0 0, radius = 3 / 2\<rparr>] []
   = Inr [\<lparr>point = Vec3 0 0 0, radius = 1\<rparr>, \<lparr>point = Vec3 3 0 0, radius = 2\<rparr>]
   \<and> clear_of list_collides_with list_insert [] (list_grid (Vec3 2 2 2))
       [\<lparr>point = Vec3 0 0 0, radius = 1\<rparr>, \<lparr>point = Vec3 3 0 0, radius = 2\<rparr>]
   \<and> sorted (map radius [\<lparr>point = Vec3 0 0 0, radius = 1\<rparr>, \<lparr>point = Vec3 3 0 0, radius = 2\<rparr>])"
proof -
  let ?samples = "[\<lparr>point = Vec3 3 0 0, radius = 2\<rparr>, \<lparr>point = Vec3 0 0 0, radius = 1\<rparr>,
      \<lparr>point = Vec3 1 0 0, radius = 3 / 2\<rparr>]"
  have h: "poisson_sphere_from_samples list_collides_with list_insert list_grid ?samples []
     = Inr [\<lparr>point = Vec3 0 0 0, radius = 1\<rparr>, \<lparr>point = Vec3 3 0 0, radius = 2\<rparr>]"
    by (simp add: poisson_sphere_from_samples_def list_collides_with_def list_insert_def
        list_grid_def dot_def vsub_def Let_def)
  have s: "sort_key radius ?samples =
     [\<lparr>point = Vec3 0 0 0, radius = 1\<rparr>, \<lparr>point = Vec3 1 0 0, radius = 3 / 2\<rparr>,
      \<lparr>point = Vec3 3 0 0, radius = 2\<rparr>]" by simp
  show ?thesis
    using poisson_accepts_only_clear_points [OF h] h unfolding s by simp
qed

text \<open>
  C9. \<open>poisson_sphere_from_samples\<close> reads the last element of the sorted candidate
  vector before its loop: it returns a result exactly when the candidate list is not
  empty, and on the empty list the read is out of range.
\<close>

theorem poisson_empty_out_of_range:
  "(poisson_sphere_from_samples cw ins mk samples grid = Inl OutOfRange) = (samples = [])
   \<and> (\<exists>res. poisson_sphere_from_samples cw ins mk samples grid = Inr res) = (samples \<noteq> [])"
proof -
  have "(sort_key radius samples = []) = (samples = [])"
    by (metis length_0_conv length_sort)
  then show ?thesis
    by (auto simp: poisson_sphere_from_samples_def Let_def)
qed

section \<open>Direction sampler: proofs\<close>

declare fibonacci_loop.simps [simp del]

lemma fibonacci_loop_step:
  assumes "i < n" and "\<not> fib_z n i < min_z"
  shows "fibonacci_loop min_z n i = fib_dir n i # fibonacci_loop min_z n (Suc i)"
  using assms unfolding fib_z_def
  by (subst fibonacci_loop.simps) (simp add: Let_def fib_dir_def fib_z_def)

lemma fibonacci_loop_stop:
  assumes "\<not> (i < n \<and> \<not> fib_z n i < min_z)"
  shows "fibonacci_loop min_z n i = []"
  using assms unfolding fib_z_def
  by (subst fibonacci_loop.simps) (auto simp: Let_def)

lemma fib_z_mono:
  assumes "i \<le> j"
  shows "fib_z n j \<le> fib_z n i"
proof -
  have "f64 (real i) \<le> f64 (real j)" using assms by (intro f64_mono) simp
  moreover have "0 \<le> f64 (real (n - 1))" by (rule f64_nonneg) simp
  ultimately have "f64 (real i) / f64 (real (n - 1)) \<le> f64 (real j) / f64 (real (n - 1))"
    by (rule divide_right_mono)
  then have "f64 (f64 (real i) / f64 (real (n - 1))) \<le> f64 (f64 (real j) / f64 (real (n - 1)))"
    by (rule f64_mono)
  then show ?thesis unfolding fib_z_def by (intro f64_mono) simp
qed

lemma fibonacci_loop_length: "length (fibonacci_loop min_z n i) \<le> n - i"
proof (induction "n - i" arbitrary: i)
  case 0
  then have "\<not> (i < n \<and> \<not> fib_z n i < min_z)" by simp
  then show ?case by (simp add: fibonacci_loop_stop)
next
  case (Suc k)
  show ?case
  proof (cases "i < n \<and> \<not> fib_z n i < min_z")
    case True
    then have c1: "i < n" and c2: "\<not> fib_z n i < min_z" by blast+
    have "k = n - Suc i" using Suc.hyps(2) by simp
    then have "length (fibonacci_loop min_z n (Suc i)) \<le> n - Suc i" by (rule Suc.hyps(1))
    with c1 show ?thesis unfolding fibonacci_loop_step [OF c1 c2] by simp
  next
    case False
    show ?thesis unfolding fibonacci_loop_stop [OF False] by simp
  qed
qed

lemma fibonacci_loop_nth:
  "k < length (fibonacci_loop min_z n i) \<Longrightarrow>
   fibonacci_loop min_z n i ! k = fib_dir n (i + k) \<and> min_z \<le> fib_z n (i + k) \<and> i + k < n"
proof (induction k arbitrary: i)
  case 0
  have c: "i < n \<and> \<not> fib_z n i < min_z"
  proof (rule ccontr)
    assume "\<not> (i < n \<and> \<not> fib_z n i < min_z)"
    from fibonacci_loop_stop [OF this] 0 show False by simp
  qed
  then have c1: "i < n" and c2: "\<not> fib_z n i < min_z" by blast+
  show ?case unfolding fibonacci_loop_step [OF c1 c2] using c1 c2 by simp
next
  case (Suc k)
  have c: "i < n \<and> \<not> fib_z n i < min_z"
  proof (rule ccontr)
    assume "\<not> (i < n \<and> \<not> fib_z n i < min_z)"
    from fibonacci_loop_stop [OF this] Suc.prems show False by simp
  qed
  then have c1: "i < n" and c2: "\<not> fib_z n i < min_z" by blast+
  from Suc.prems have "k < length (fibonacci_loop min_z n (Suc i))"
    unfolding fibonacci_loop_step [OF c1 c2] by simp
  from Suc.IH [OF this] show ?case
    unfolding fibonacci_loop_step [OF c1 c2] by simp
qed

lemma fibonacci_loop_reaches:
  "i + k < n \<Longrightarrow> min_z \<le> fib_z n (i + k) \<Longrightarrow> k < length (fibonacci_loop min_z n i)"
proof (induction k arbitrary: i)
  case 0
  then have c1: "i < n" and c2: "\<not> fib_z n i < min_z" by simp_all
  show ?case unfolding fibonacci_loop_step [OF c1 c2] by simp
next
  case (Suc k)
  have c1: "i < n" using Suc.prems(1) by simp
  have "fib_z n (i + Suc k) \<le> fib_z n i" by (rule fib_z_mono) simp
  with Suc.prems(2) have c2: "\<not> fib_z n i < min_z" by simp
  have "k < length (fibonacci_loop min_z n (Suc i))"
    by (rule Suc.IH) (use Suc.prems in simp_all)
  then show ?case unfolding fibonacci_loop_step [OF c1 c2] by simp
qed

lemma fib_z_0: "fib_z n 0 = 1"
  by (simp add: fib_z_def)

lemma fib_min_z_le_1: "fib_min_z angle \<le> 1"
proof -
  have "fib_min_z angle \<le> f64 1" unfolding fib_min_z_def by (rule f64_mono) simp
  then show ?thesis by simp
qed

lemma samples_loop:
  "1 < N \<Longrightarrow> create_fibonacci_sphere_samples angle N = fibonacci_loop (fib_min_z angle) N 0"
  by (simp add: create_fibonacci_sphere_samples_def fib_min_z_def)

text \<open>
  C6. For a count \<open>N > 1\<close>, \<open>create_fibonacci_sphere_samples\<close> returns between 1 and \<open>N\<close>
  directions. The polar component of the direction at index \<open>i\<close> is the binary32 rounding
  of the \<^verbatim>\<open>double\<close> \<open>z\<close> of that index, which is at least the \<^verbatim>\<open>double\<close> cosine \<open>min_z\<close>
  of half the angle; so the polar component is at least the binary32 rounding of
  \<open>min_z\<close>. The weight of each direction is its polar component, and the polar components
  never increase along the sequence.
\<close>

theorem fibonacci_samples_rounded_in_cone:
  assumes "1 < N"
  shows "1 \<le> length (create_fibonacci_sphere_samples angle N)
       \<and> length (create_fibonacci_sphere_samples angle N) \<le> N
       \<and> (\<forall>i < length (create_fibonacci_sphere_samples angle N).
             fib_min_z angle \<le> fib_z N i
           \<and> vz (dir (create_fibonacci_sphere_samples angle N ! i)) = f32 (fib_z N i)
           \<and> f32 (fib_min_z angle) \<le> vz (dir (create_fibonacci_sphere_samples angle N ! i))
           \<and> weight (create_fibonacci_sphere_samples angle N ! i)
               = vz (dir (create_fibonacci_sphere_samples angle N ! i)))
       \<and> sorted_wrt (\<lambda>a b. vz (dir b) \<le> vz (dir a)) (create_fibonacci_sphere_samples angle N)"
proof -
  let ?mz = "fib_min_z angle"
  let ?ds = "fibonacci_loop ?mz N 0"
  have eq: "create_fibonacci_sphere_samples angle N = ?ds" by (rule samples_loop [OF assms])
  have "0 < length ?ds"
    by (rule fibonacci_loop_reaches) (use assms fib_min_z_le_1 in \<open>simp_all add: fib_z_0\<close>)
  then have a: "1 \<le> length ?ds" by (simp add: Suc_le_eq)
  have b: "length ?ds \<le> N" using fibonacci_loop_length [of ?mz N 0] by simp
  have nth: "?ds ! i = fib_dir N i \<and> ?mz \<le> fib_z N i" if "i < length ?ds" for i
    using fibonacci_loop_nth [OF that] by simp
  have c: "\<forall>i < length ?ds. ?mz \<le> fib_z N i \<and> vz (dir (?ds ! i)) = f32 (fib_z N i)
             \<and> f32 ?mz \<le> vz (dir (?ds ! i)) \<and> weight (?ds ! i) = vz (dir (?ds ! i))"
  proof (intro allI impI)
    fix i assume i: "i < length ?ds"
    from nth [OF i] have d: "?ds ! i = fib_dir N i" and z: "?mz \<le> fib_z N i" by simp_all
    have "f32 ?mz \<le> f32 (fib_z N i)" using z by (rule f32_mono)
    with z show "?mz \<le> fib_z N i \<and> vz (dir (?ds ! i)) = f32 (fib_z N i)
             \<and> f32 ?mz \<le> vz (dir (?ds ! i)) \<and> weight (?ds ! i) = vz (dir (?ds ! i))"
      unfolding d by (simp add: fib_dir_def)
  qed
  have s: "sorted_wrt (\<lambda>a b. vz (dir b) \<le> vz (dir a)) ?ds"
  proof (rule sorted_wrt_iff_nth_less [THEN iffD2], intro allI impI)
    fix i j assume ij: "i < j" "j < length ?ds"
    then have i: "i < length ?ds" by simp
    have "f32 (fib_z N j) \<le> f32 (fib_z N i)"
      by (rule f32_mono, rule fib_z_mono) (use ij in simp)
    then show "vz (dir (?ds ! j)) \<le> vz (dir (?ds ! i))"
      using nth [OF i] nth [OF ij(2)] by (simp add: fib_dir_def)
  qed
  from a b c s show ?thesis unfolding eq by blast
qed

lemma pi_ge_3: "3 \<le> pi"
proof -
  have "sin (pi / 6) \<le> pi / 6" by (rule sin_x_le_x) simp
  then show ?thesis by (simp add: sin_30)
qed

lemma M_PI_bounds: "3 \<le> M_PI" "M_PI \<le> 4"
proof -
  have "f64 3 \<le> f64 pi" by (rule f64_mono) (rule pi_ge_3)
  then show "3 \<le> M_PI" using f64_int [of 3] by (simp add: M_PI_def)
  have "f64 pi \<le> f64 4" by (rule f64_mono) (use pi_less_4 in simp)
  then show "M_PI \<le> 4" using f64_int [of 4] by (simp add: M_PI_def)
qed

lemma f64_45: "f64 45 = 45"
  using f64_int [of 45] by simp

lemma arg90_bounds: "3 / 4 \<le> arg90" "arg90 \<le> 1"
proof -
  have a: "135 \<le> 45 * M_PI" "45 * M_PI \<le> 180" using M_PI_bounds by simp_all
  have "f64 135 \<le> f64 (45 * M_PI)" "f64 (45 * M_PI) \<le> f64 180"
    using a by (simp_all add: f64_mono)
  then have b: "135 \<le> f64 (45 * M_PI)" "f64 (45 * M_PI) \<le> 180"
    using f64_int [of 135] f64_int [of 180] by simp_all
  then have "3 / 4 \<le> f64 (45 * M_PI) / 180" "f64 (45 * M_PI) / 180 \<le> 1" by simp_all
  then have "f64 (3 / 4) \<le> f64 (f64 (45 * M_PI) / 180)" "f64 (f64 (45 * M_PI) / 180) \<le> f64 1"
    by (simp_all only: f64_mono)
  then show "3 / 4 \<le> arg90" "arg90 \<le> 1"
    using f64_dyadic [of 3 2] by (simp_all add: arg90_def f64_45)
qed

lemma fib_min_z_90: "fib_min_z 90 = f64 (cos arg90)"
  by (simp add: fib_min_z_def arg90_def)

lemma fib_min_z_90_le: "fib_min_z 90 \<le> 7 / 8"
proof -
  have "pi / 6 \<le> arg90" using arg90_bounds(1) pi_less_4 by simp
  moreover have "arg90 \<le> pi" using arg90_bounds(2) pi_ge_3 by simp
  ultimately have "cos arg90 \<le> cos (pi / 6)"
    using pi_ge_3 by (intro cos_monotone_0_pi_le) simp_all
  moreover have "sqrt 3 \<le> 7 / 4" by (rule real_le_lsqrt) (simp_all add: power2_eq_square)
  ultimately have "cos arg90 \<le> 7 / 8" by (simp add: cos_30)
  then have "f64 (cos arg90) \<le> f64 (7 / 8)" by (rule f64_mono)
  then show ?thesis using f64_dyadic [of 7 3] by (simp add: fib_min_z_90)
qed

lemma fib_z_11_1: "7 / 8 \<le> fib_z 11 1"
proof -
  have "f64 (1 / 10) \<le> f64 (1 / 8)" by (rule f64_mono) simp
  then have "f64 (1 / 10) \<le> 1 / 8" using f64_dyadic [of 1 3] by simp
  then have "7 / 8 \<le> 1 - f64 (1 / 10)" by simp
  then have "f64 (7 / 8) \<le> f64 (1 - f64 (1 / 10))" by (rule f64_mono)
  then show ?thesis using f64_dyadic [of 7 3] f64_int [of 10] by (simp add: fib_z_def)
qed

theorem fibonacci_samples_rounded_in_cone_witness:
  "(1::nat) < 11
   \<and> 2 \<le> length (create_fibonacci_sphere_samples 90 11)
   \<and> length (create_fibonacci_sphere_samples 90 11) \<le> 11
   \<and> fib_min_z 90 \<le> fib_z 11 1
   \<and> vz (dir (create_fibonacci_sphere_samples 90 11 ! 1)) = f32 (fib_z 11 1)
   \<and> f32 (fib_min_z 90) \<le> vz (dir (create_fibonacci_sphere_samples 90 11 ! 1))
   \<and> weight (create_fibonacci_sphere_samples 90 11 ! 1)
       = vz (dir (create_fibonacci_sphere_samples 90 11 ! 1))
   \<and> vz (dir (create_fibonacci_sphere_samples 90 11 ! 1))
       \<le> vz (dir (create_fibonacci_sphere_samples 90 11 ! 0))"
proof -
  let ?ds = "create_fibonacci_sphere_samples 90 11"
  have n: "(1::nat) < 11" by simp
  note th = fibonacci_samples_rounded_in_cone [OF n, of 90]
  have "fib_min_z 90 \<le> fib_z 11 (0 + 1)" using fib_min_z_90_le fib_z_11_1 by simp
  then have "1 < length (fibonacci_loop (fib_min_z 90) 11 0)"
    by (intro fibonacci_loop_reaches) simp_all
  then have len: "1 < length ?ds" by (simp add: samples_loop)
  from th [THEN conjunct2, THEN conjunct2, THEN conjunct1, rule_format, OF len]
  have c: "fib_min_z 90 \<le> fib_z 11 1 \<and> vz (dir (?ds ! 1)) = f32 (fib_z 11 1)
           \<and> f32 (fib_min_z 90) \<le> vz (dir (?ds ! 1)) \<and> weight (?ds ! 1) = vz (dir (?ds ! 1))" .
  from th [THEN conjunct2, THEN conjunct2, THEN conjunct2] len
  have s: "vz (dir (?ds ! 1)) \<le> vz (dir (?ds ! 0))"
    by (simp add: sorted_wrt_iff_nth_less)
  from len have "2 \<le> length ?ds" by simp
  with n th [THEN conjunct2, THEN conjunct1] c s show ?thesis by blast
qed

lemma pow2_m24: "pow2 (- 24) = 1 / 16777216"
  using pow2_neg_nat [of 24] by simp

lemma pow2_m1: "pow2 (- 1) = 1 / 2"
  using pow2_neg_nat [of 1] by simp

lemma f32_tie_to_one: "f32 (33554431 / 33554432) = 1"
proof -
  have "fl 24 (33554431 / 33554432) = of_int 16777216 * pow2 (- 1 - int 24 + 1)"
    by (rule fl_pos_eval) (simp_all add: pow2_m1 pow2_m24 rne_def Let_def)
  then show ?thesis by (simp add: f32_def pow2_m24)
qed

lemma f32_below_midpoint: "f32 (94906267 / 134217728) = 11863283 / 16777216"
proof -
  have "fl 24 (94906267 / 134217728) = of_int 11863283 * pow2 (- 1 - int 24 + 1)"
    by (rule fl_pos_eval) (simp_all add: pow2_m1 pow2_m24 rne_def Let_def)
  then show ?thesis by (simp add: f32_def pow2_m24)
qed

lemma f64_dyadic_eq:
  assumes "x = real_of_int k / 2 ^ n" and "\<bar>k\<bar> < 9007199254740992"
  shows "f64 x = x"
  unfolding assms(1) by (rule f64_dyadic [OF assms(2)])

lemma fib_z_tie: "fib_z 33554433 1 = 33554431 / 33554432"
proof -
  have n: "f64 33554432 = 33554432" by (rule f64_dyadic_eq [of _ 33554432 0]) simp_all
  have q: "f64 (1 / 33554432) = 1 / 33554432" by (rule f64_dyadic_eq [of _ 1 25]) simp_all
  have r: "f64 (33554431 / 33554432) = 33554431 / 33554432"
    by (rule f64_dyadic_eq [of _ 33554431 25]) simp_all
  have s: "1 - (1 / 33554432 :: real) = 33554431 / 33554432" by simp
  have "fib_z 33554433 1 = f64 (1 - f64 (1 / f64 33554432))" by (simp add: fib_z_def)
  then show ?thesis unfolding n q s r .
qed

lemma fib_z_8120: "94906266 / 134217728 \<le> fib_z 8120 2378"
  "fib_z 8120 2378 \<le> 94906267 / 134217728"
proof -
  have "f64 (39311461 / 134217728) \<le> f64 (2378 / 8119)"
    "f64 (2378 / 8119) \<le> f64 (39311462 / 134217728)"
    by (rule f64_mono; simp)+
  then have q: "39311461 / 134217728 \<le> f64 (2378 / 8119)"
    "f64 (2378 / 8119) \<le> 39311462 / 134217728"
    using f64_dyadic [of 39311461 27] f64_dyadic [of 39311462 27] by simp_all
  then have "94906266 / 134217728 \<le> 1 - f64 (2378 / 8119)"
    "1 - f64 (2378 / 8119) \<le> 94906267 / 134217728" by simp_all
  then have "f64 (94906266 / 134217728) \<le> f64 (1 - f64 (2378 / 8119))"
    "f64 (1 - f64 (2378 / 8119)) \<le> f64 (94906267 / 134217728)"
    by (simp_all only: f64_mono)
  then show "94906266 / 134217728 \<le> fib_z 8120 2378"
    "fib_z 8120 2378 \<le> 94906267 / 134217728"
    using f64_dyadic [of 94906266 27] f64_dyadic [of 94906267 27]
      f64_int [of 2378] f64_int [of 8119]
    by (simp_all add: fib_z_def)
qed

text \<open>
  The argument of the cosine is below \<open>\<pi>/4\<close> by at most three relative rounding errors
  of \<^verbatim>\<open>double\<close>.
\<close>

lemma arg90_lower: "pi / 4 - 3 / 2 ^ 53 \<le> arg90"
proof -
  define c :: real where "c = 1 - 1 / 2 ^ 53"
  have c0: "0 \<le> c" by (simp add: c_def)
  have m: "pi * c \<le> M_PI"
    unfolding M_PI_def f64_def c_def by (rule fl_error(1)) simp
  have p2: "0 < 45 * M_PI" using M_PI_bounds(1) by simp
  have "45 * M_PI * c \<le> f64 (45 * M_PI)"
    unfolding f64_def c_def by (rule fl_error(1) [OF p2])
  moreover have "45 * (pi * c) * c \<le> 45 * M_PI * c"
    using m c0 by (intro mult_right_mono mult_left_mono) simp_all
  ultimately have x2: "45 * pi * c * c \<le> f64 (45 * M_PI)" by (simp add: mult.assoc)
  have p3: "0 < f64 (45 * M_PI) / 180" using f64_pos [OF p2] by simp
  have "f64 (45 * M_PI) / 180 * c \<le> f64 (f64 (45 * M_PI) / 180)"
    unfolding f64_def c_def by (rule fl_error(1) [OF p3 [unfolded f64_def]])
  moreover have "45 * pi * c * c / 180 * c \<le> f64 (45 * M_PI) / 180 * c"
    using x2 c0 by (intro mult_right_mono divide_right_mono) simp_all
  ultimately have "pi / 4 * (c * c * c) \<le> arg90"
    by (simp add: arg90_def f64_45 mult.assoc)
  moreover have "1 - 3 / 2 ^ 53 \<le> c * c * c" by (simp add: c_def)
  then have "pi / 4 * (1 - 3 / 2 ^ 53) \<le> pi / 4 * (c * c * c)"
    by (intro mult_left_mono) simp_all
  moreover have "pi / 4 - 3 / 2 ^ 53 \<le> pi / 4 * (1 - 3 / 2 ^ 53)"
  proof -
    have "pi / 4 * (3 / 2 ^ 53) \<le> 1 * (3 / 2 ^ 53)"
      using pi_less_4 by (intro mult_right_mono) simp_all
    then show ?thesis by (simp add: algebra_simps)
  qed
  ultimately show ?thesis by linarith
qed

lemma cos_arg90_upper: "cos arg90 \<le> 94906266 / 134217728"
proof -
  define e :: real where "e = 3 / 2 ^ 53"
  have e0: "0 \<le> e" by (simp add: e_def)
  have lo: "pi / 4 - e \<le> arg90" unfolding e_def by (rule arg90_lower)
  have "e \<le> 3 / 4" by (simp add: e_def)
  then have a0: "0 \<le> pi / 4 - e" using pi_ge_3 by simp
  have "arg90 \<le> pi" using arg90_bounds(2) pi_ge_3 by simp
  with a0 lo have "cos arg90 \<le> cos (pi / 4 - e)" by (intro cos_monotone_0_pi_le) simp_all
  also have "\<dots> = sqrt 2 / 2 * cos e + sqrt 2 / 2 * sin e"
    by (simp add: cos_diff cos_45 sin_45)
  also have "\<dots> \<le> sqrt 2 / 2 * 1 + sqrt 2 / 2 * e"
    using sin_x_le_x [OF e0] by (intro add_mono mult_left_mono) simp_all
  also have "\<dots> = sqrt 2 / 2 * (1 + e)" by (simp add: algebra_simps)
  also have "\<dots> \<le> 759250125 / 1073741824 * (1 + e)"
  proof -
    have "sqrt 2 \<le> 759250125 / 536870912"
      by (rule real_le_lsqrt) (simp_all add: power2_eq_square)
    then have "sqrt 2 / 2 \<le> 759250125 / 1073741824" by simp
    then show ?thesis using e0 by (intro mult_right_mono) simp_all
  qed
  also have "\<dots> \<le> 94906266 / 134217728" by (simp add: e_def)
  finally show ?thesis .
qed

lemma fib_min_z_90_tight: "fib_min_z 90 \<le> 94906266 / 134217728"
proof -
  have "f64 (cos arg90) \<le> f64 (94906266 / 134217728)"
    by (rule f64_mono) (rule cos_arg90_upper)
  then show ?thesis using f64_dyadic [of 94906266 27] by (simp add: fib_min_z_90)
qed

lemma fibonacci_loop_polar:
  "k < length (fibonacci_loop min_z n 0) \<Longrightarrow>
   vz (dir (fibonacci_loop min_z n 0 ! k)) = f32 (fib_z n k)"
  using fibonacci_loop_nth [of k min_z n 0] by (simp add: fib_dir_def)

text \<open>
  Two sentences of C6 fail after the rounding to \<^verbatim>\<open>float\<close>. For \<open>33554433\<close> samples and
  the angle 90 the second \<open>z\<close> is \<open>1 - 2\<^sup>-\<^sup>2\<^sup>5\<close>, which is stored as \<open>1\<close>: the first two polar
  components are equal. For \<open>8120\<close> samples and the angle 90 the \<open>z\<close> of index \<open>2378\<close> passes
  the test against \<^verbatim>\<open>min_z\<close> and is stored as \<open>11863283 / 2\<^sup>2\<^sup>4\<close>, which is below the cosine of
  45 degrees.
\<close>

theorem float_rounding_leaves_cone_and_ties:
  "2 \<le> length (create_fibonacci_sphere_samples 90 33554433)
   \<and> vz (dir (create_fibonacci_sphere_samples 90 33554433 ! 0)) = 1
   \<and> vz (dir (create_fibonacci_sphere_samples 90 33554433 ! 1)) = 1
   \<and> 2378 < length (create_fibonacci_sphere_samples 90 8120)
   \<and> vz (dir (create_fibonacci_sphere_samples 90 8120 ! 2378)) < cos (90 / 2 * pi / 180)"
proof -
  let ?a = "fibonacci_loop (fib_min_z 90) 33554433 0"
  let ?b = "fibonacci_loop (fib_min_z 90) 8120 0"
  have "fib_min_z 90 \<le> fib_z 33554433 1"
    unfolding fib_z_tie using fib_min_z_90_le by simp
  then have la: "1 < length ?a"
    using fibonacci_loop_reaches [of 0 1 33554433 "fib_min_z 90"] by simp
  then have la0: "0 < length ?a" by linarith
  have a0: "vz (dir (?a ! 0)) = 1"
    using fibonacci_loop_polar [OF la0] by (simp add: fib_z_0)
  have a1: "vz (dir (?a ! 1)) = 1"
    using fibonacci_loop_polar [OF la] unfolding fib_z_tie f32_tie_to_one .
  have "fib_min_z 90 \<le> fib_z 8120 2378"
    using fib_min_z_90_tight fib_z_8120(1) by simp
  then have lb: "2378 < length ?b"
    using fibonacci_loop_reaches [of 0 2378 8120 "fib_min_z 90"] by simp
  have "f32 (fib_z 8120 2378) \<le> f32 (94906267 / 134217728)"
    by (rule f32_mono) (rule fib_z_8120(2))
  then have "f32 (fib_z 8120 2378) \<le> 11863283 / 16777216"
    by (simp only: f32_below_midpoint)
  moreover have "11863283 / 8388608 < sqrt 2"
    by (rule real_less_rsqrt) (simp add: power2_eq_square)
  ultimately have "f32 (fib_z 8120 2378) < sqrt 2 / 2" by simp
  then have b1: "vz (dir (?b ! 2378)) < cos (pi / 4)"
    unfolding fibonacci_loop_polar [OF lb] cos_45 .
  have c: "cos (90 / 2 * pi / 180) = cos (pi / 4)" by simp
  from la have "2 \<le> length ?a" by simp
  with a0 a1 lb b1 show ?thesis
    unfolding c by (simp add: samples_loop)
qed

section \<open>Width estimator: proofs\<close>

lemma cast_rays_surviving:
  assumes "\<forall>d \<in> set ds. \<forall>e. body d \<noteq> Inl e"
  shows "cast_rays body ds (ws, wts, sw, sq) =
         Inr (ws @ map fst (surviving body ds), wts @ map snd (surviving body ds),
              foldl (\<lambda>s x. f32 (s + x)) sw (map fst (surviving body ds)),
              foldl (\<lambda>s x. f32 (s + x)) sq
                (map (\<lambda>w. f32 (w * w)) (map fst (surviving body ds))))"
  using assms
proof (induction ds arbitrary: ws wts sw sq)
  case Nil
  then show ?case by simp
next
  case (Cons d ds)
  from Cons.prems have ih: "\<forall>d \<in> set ds. \<forall>e. body d \<noteq> Inl e" by simp
  from Cons.prems consider "body d = Inr None" | w wt where "body d = Inr (Some (w, wt))"
  proof (cases "body d")
    case (Inl e)
    with Cons.prems show ?thesis by simp
  next
    case (Inr b)
    then show ?thesis using that by (cases b) auto
  qed
  then show ?case
  proof cases
    case 1
    then show ?thesis using Cons.IH [OF ih] by simp
  next
    case 2
    then show ?thesis using Cons.IH [OF ih] by simp
  qed
qed

lemma weighted_sums_filter:
  "weighted_sums config mean th hits (a, b) =
     (foldl (\<lambda>s x. f32 (s + x)) a (map (\<lambda>(w, wt). f32 (w * wt))
            (filter (\<lambda>(w, wt). \<not> (is_deviation_filtering config \<and>
                 (case th of None \<Rightarrow> False | Some t \<Rightarrow> \<bar>f32 (w - mean)\<bar> > t))) hits)),
      foldl (\<lambda>s x. f32 (s + x)) b (map snd
            (filter (\<lambda>(w, wt). \<not> (is_deviation_filtering config \<and>
                 (case th of None \<Rightarrow> False | Some t \<Rightarrow> \<bar>f32 (w - mean)\<bar> > t))) hits)))"
proof (induction hits arbitrary: a b)
  case Nil
  then show ?case by simp
next
  case (Cons h hits)
  obtain w wt where h: "h = (w, wt)" by (cases h)
  show ?case unfolding h using Cons.IH by simp
qed

lemma aggregate_widths_spec:
  assumes len: "length ws = length wts"
  shows "aggregate_widths config (ws, wts, sum32 ws, sum32 (map (\<lambda>w. f32 (w * w)) ws)) =
         spec_width config (zip ws wts)"
proof (cases "ws = [] \<or> length ws = 1")
  case True
  then show ?thesis
  proof
    assume "ws = []"
    then show ?thesis by (simp add: aggregate_widths_def spec_width_def)
  next
    assume l1: "length ws = 1"
    then obtain w where w: "ws = [w]" by (cases ws) auto
    from l1 len obtain wt where wt: "wts = [wt]" by (cases wts) auto
    show ?thesis unfolding w wt by (simp add: aggregate_widths_def spec_width_def)
  qed
next
  case many: False
  define hits where "hits = zip ws wts"
  have fst_hits: "map fst hits = ws" and snd_hits: "map snd hits = wts"
    using len by (simp_all add: hits_def)
  have lh: "length hits = length ws" using len by (simp add: hits_def)
  define th where "th = map_option (\<lambda>sd. f32 (sd * allowed_deviation config))
     (if spec_variance ws < 0 then None else Some (f32 (sqrt (spec_variance ws))))"
  have far: "(case th of None \<Rightarrow> False | Some t \<Rightarrow> \<bar>f32 (w - spec_mean ws)\<bar> > t)
             = spec_far config ws w" for w
    by (simp add: th_def spec_far_def not_less)
  have kept: "filter (\<lambda>(w, wt). \<not> (is_deviation_filtering config \<and>
                 (case th of None \<Rightarrow> False | Some t \<Rightarrow> \<bar>f32 (w - spec_mean ws)\<bar> > t))) hits
              = spec_kept config hits"
    unfolding spec_kept_def fst_hits far ..
  have wsum: "weighted_sums config (spec_mean ws) th hits (0, 0) =
              (sum32 (map (\<lambda>(w, wt). f32 (w * wt)) (spec_kept config hits)),
               sum32 (map snd (spec_kept config hits)))"
    unfolding weighted_sums_filter kept sum32_def ..
  have lhs: "aggregate_widths config (ws, wts, sum32 ws, sum32 (map (\<lambda>w. f32 (w * w)) ws)) =
        (if sum32 (map snd (spec_kept config hits)) \<le> 0 then spec_mean ws
         else f32 (f32 (sum32 (map (\<lambda>(w, wt). f32 (w * wt)) (spec_kept config hits))
                / sum32 (map snd (spec_kept config hits))) + safe_move config))"
    using many
    unfolding aggregate_widths_def Let_def prod.case spec_mean_def [symmetric]
      spec_variance_def [symmetric] th_def [symmetric] hits_def [symmetric] wsum
    by simp
  have rhs: "spec_width config hits =
        (if sum32 (map snd (spec_kept config hits)) \<le> 0 then spec_mean ws
         else f32 (f32 (sum32 (map (\<lambda>(w, wt). f32 (w * wt)) (spec_kept config hits))
                / sum32 (map snd (spec_kept config hits))) + safe_move config))"
    using many lh unfolding spec_width_def fst_hits by auto
  show ?thesis unfolding lhs rhs hits_def [symmetric] ..
qed

lemma calc_width_spec:
  assumes no_error: "\<forall>d \<in> set (dirs config). \<forall>e.
                    vertex_ray rot first_hit triangle_normals pnt normal config d \<noteq> Inl e"
  shows "calc_width rot first_hit triangle_normals pnt normal config =
         Inr (if vz normal > normal_z_max config then no_width
              else spec_width config
                     (surviving (vertex_ray rot first_hit triangle_normals pnt normal config)
                        (dirs config)))"
proof (cases "vz normal > normal_z_max config")
  case True
  then show ?thesis by (simp add: calc_width_def)
next
  case False
  define body where "body = vertex_ray rot first_hit triangle_normals pnt normal config"
  define hits where "hits = surviving body (dirs config)"
  have cr: "cast_rays body (dirs config) ([], [], 0, 0) =
            Inr (map fst hits, map snd hits, sum32 (map fst hits),
                 sum32 (map (\<lambda>w. f32 (w * w)) (map fst hits)))"
    using cast_rays_surviving [OF no_error, of "[]" "[]" 0 0]
    unfolding body_def [symmetric] hits_def [symmetric] sum32_def by simp
  have agg: "aggregate_widths config (map fst hits, map snd hits, sum32 (map fst hits),
                 sum32 (map (\<lambda>w. f32 (w * w)) (map fst hits))) = spec_width config hits"
  proof -
    have len: "length (map fst hits) = length (map snd hits)" by simp
    have zip: "zip (map fst hits) (map snd hits) = hits" by (simp add: zip_map_fst_snd)
    show ?thesis using aggregate_widths_spec [OF len, of config] unfolding zip .
  qed
  have "calc_width rot first_hit triangle_normals pnt normal config =
        (case cast_rays body (dirs config) ([], [], 0, 0) of
           Inl e \<Rightarrow> Inl e | Inr acc \<Rightarrow> Inr (aggregate_widths config acc))"
    using False unfolding calc_width_def Let_def body_def vertex_ray_def by simp
  also have "\<dots> = Inr (spec_width config hits)"
    by (simp only: cr sum.case agg)
  finally show ?thesis using False unfolding hits_def body_def by simp
qed

text \<open>
  C3. For a probe whose hit triangles all have a normal, \<open>calc_width\<close> returns the
  sentinel for a vertex rejected by its normal, and otherwise \<open>spec_width\<close> of the
  surviving rays: the sentinel for none, the hit distance itself for one, and else the
  weighted mean of the distances that are not far from the mean plus \<open>safe_move\<close>, or the
  plain mean when the weights of these distances sum to zero or less; all sums, means
  and the deviation are the binary32 values of \<open>sum32\<close>, \<open>spec_mean\<close> and
  \<open>spec_variance\<close>.
\<close>

theorem calc_width_aggregates_rounded:
  assumes "\<forall>d \<in> set (dirs config). \<forall>e.
             vertex_ray rot first_hit triangle_normals pnt normal config d \<noteq> Inl e"
  shows "calc_width rot first_hit triangle_normals pnt normal config =
         Inr (if vz normal > normal_z_max config then no_width
              else spec_width config
                     (surviving (vertex_ray rot first_hit triangle_normals pnt normal config)
                        (dirs config)))"
  using assms by (rule calc_width_spec)

lemma sqrt_9: "sqrt 9 = 3"
  by (rule real_sqrt_unique) simp_all

lemma probe_ray_unfiltered:
  "\<not> is_angle_filtering config \<Longrightarrow>
   vertex_ray probe_rot probe_hit tn pnt normal config (probe_dir t w) = Inr (Some (t, w))"
  by (simp add: vertex_ray_def cast_ray_def probe_rot_def probe_hit_def probe_dir_def)

lemma probe_ray_filtered:
  "1 \<le> allowed_angle config \<Longrightarrow>
   vertex_ray probe_rot probe_hit [Vec3 0 0 1] pnt (Vec3 0 0 (- 1)) config (probe_dir t w)
     = Inr (Some (t, w))"
  by (simp add: vertex_ray_def cast_ray_def probe_rot_def probe_hit_def probe_dir_def
        vget_def vneg_def dot32_def Let_def f32_exact)

theorem calc_width_aggregates_rounded_witness:
  "calc_width probe_rot probe_hit [Vec3 0 0 1] (Vec3 0 0 0) (Vec3 0 0 (- 1))
     \<lparr>dirs = [probe_dir 1 1, probe_dir 3 (1 / 2), probe_dir 3 (1 / 2), probe_dir 9 1],
      safe_move = 1 / 4, normal_z_max = 1 / 2, allowed_angle = 1, allowed_deviation = 1,
      is_angle_filtering = True, is_deviation_filtering = True\<rparr>
   = Inr (9 / 4)"
proof -
  let ?cfg = "\<lparr>dirs = [probe_dir 1 1, probe_dir 3 (1 / 2), probe_dir 3 (1 / 2), probe_dir 9 1],
      safe_move = 1 / 4, normal_z_max = 1 / 2, allowed_angle = 1, allowed_deviation = 1,
      is_angle_filtering = True, is_deviation_filtering = True\<rparr>"
  have ne: "\<forall>d \<in> set (dirs ?cfg). \<forall>e.
     vertex_ray probe_rot probe_hit [Vec3 0 0 1] (Vec3 0 0 0) (Vec3 0 0 (- 1)) ?cfg d \<noteq> Inl e"
    by (simp add: probe_ray_filtered)
  have sv: "surviving (vertex_ray probe_rot probe_hit [Vec3 0 0 1] (Vec3 0 0 0)
                         (Vec3 0 0 (- 1)) ?cfg) (dirs ?cfg)
            = [(1, 1), (3, 1 / 2), (3, 1 / 2), (9, 1)]"
    by (simp add: probe_ray_filtered)
  have mean: "spec_mean [1, 3, 3, 9] = 4"
    by (simp add: spec_mean_def sum32_def f32_exact)
  have var: "spec_variance [1, 3, 3, 9] = 9"
    by (simp add: spec_variance_def mean sum32_def f32_exact)
  have kept: "spec_kept ?cfg [(1, 1), (3, 1 / 2), (3, 1 / 2), (9, 1)]
              = [(1, 1), (3, 1 / 2), (3, 1 / 2)]"
    by (simp add: spec_kept_def spec_far_def mean var sqrt_9 f32_exact)
  have w: "spec_width ?cfg [(1, 1), (3, 1 / 2), (3, 1 / 2), (9, 1)] = 9 / 4"
    by (simp add: spec_width_def kept mean sum32_def f32_exact)
  show ?thesis
    unfolding calc_width_aggregates_rounded
      [of ?cfg probe_rot probe_hit "[Vec3 0 0 1]" "Vec3 0 0 0" "Vec3 0 0 (- 1)", OF ne]
      sv w
    by simp
qed

text \<open>The roundings of the example with three equal hits at \<open>6863979 / 2\<^sup>2\<^sup>1\<close>.\<close>

lemma equal_hits_roundings:
  "f32 (6863979 / 2097152) = 6863979 / 2097152"
  "f32 (6863979 / 1048576) = 6863979 / 1048576"
  "f32 (20591937 / 2097152) = 321749 / 32768"
  "f32 (321749 / 98304) = 13727957 / 4194304"
  "f32 (47114207712441 / 4398046511104) = 5616451 / 524288"
  "f32 (5616451 / 524288) = 5616451 / 524288"
  "f32 (5616451 / 262144) = 5616451 / 262144"
  "f32 (16849353 / 524288) = 2106169 / 65536"
  "f32 (2106169 / 196608) = 11232901 / 1048576"
  "f32 (188456803393849 / 17592186044416) = 11232901 / 1048576"
  "f32 (1 / 4194304) = 1 / 4194304"
proof -
  show "f32 (6863979 / 2097152) = 6863979 / 2097152"
    by (rule f32_dyadic_eq [of _ 6863979 21]) simp_all
  show "f32 (6863979 / 1048576) = 6863979 / 1048576"
    by (rule f32_dyadic_eq [of _ 6863979 20]) simp_all
  show "f32 (20591937 / 2097152) = 321749 / 32768"
    by (rule f32_eval_pos [where e = 3 and r = 10295968])
      (simp_all add: pow2_eval rne_def Let_def)
  show "f32 (321749 / 98304) = 13727957 / 4194304"
    by (rule f32_eval_pos [where e = 1 and r = 13727957])
      (simp_all add: pow2_eval rne_def Let_def)
  show "f32 (47114207712441 / 4398046511104) = 5616451 / 524288"
    by (rule f32_eval_pos [where e = 3 and r = 11232902])
      (simp_all add: pow2_eval rne_def Let_def)
  show "f32 (5616451 / 524288) = 5616451 / 524288"
    by (rule f32_dyadic_eq [of _ 5616451 19]) simp_all
  show "f32 (5616451 / 262144) = 5616451 / 262144"
    by (rule f32_dyadic_eq [of _ 5616451 18]) simp_all
  show "f32 (16849353 / 524288) = 2106169 / 65536"
    by (rule f32_eval_pos [where e = 5 and r = 8424676])
      (simp_all add: pow2_eval rne_def Let_def)
  show "f32 (2106169 / 196608) = 11232901 / 1048576"
    by (rule f32_eval_pos [where e = 3 and r = 11232901])
      (simp_all add: pow2_eval rne_def Let_def)
  show "f32 (188456803393849 / 17592186044416) = 11232901 / 1048576"
    by (rule f32_eval_pos [where e = 3 and r = 11232901])
      (simp_all add: pow2_eval rne_def Let_def)
  show "f32 (1 / 4194304) = 1 / 4194304"
    by (rule f32_dyadic_eq [of _ 1 22]) simp_all
qed

lemma equal_hits_mean:
  "spec_mean [6863979 / 2097152, 6863979 / 2097152, 6863979 / 2097152] = 13727957 / 4194304"
  by (simp add: spec_mean_def sum32_def equal_hits_roundings f32_exact)

lemma equal_hits_variance:
  "spec_variance [6863979 / 2097152, 6863979 / 2097152, 6863979 / 2097152] = 0"
  by (simp add: spec_variance_def equal_hits_mean sum32_def equal_hits_roundings f32_exact)

text \<open>
  Two sentences of C3 fail. With the weights \<open>-1\<close> and \<open>-1\<close> for the hits \<open>1\<close> and \<open>3\<close> the
  weights sum to \<open>-2\<close>, not to zero, and the code returns the plain mean \<open>2\<close> where the
  claim has the weighted mean plus \<open>safe_move\<close>, \<open>5/2\<close>. With three equal hits at
  \<open>6863979 / 2\<^sup>2\<^sup>1\<close> the rounded mean is one unit in the last place below the hits and
  the rounded variance is \<open>0\<close>, so every hit is discarded and the code returns the
  rounded mean where the claim has the hit distance plus \<open>safe_move\<close>.
\<close>

theorem fallback_on_negative_sum_and_rounded_mean:
  "calc_width probe_rot probe_hit [] (Vec3 0 0 0) (Vec3 0 0 (- 1)) negative_weights_config
     = Inr 2
   \<and> claimed_width negative_weights_config
       (surviving (vertex_ray probe_rot probe_hit [] (Vec3 0 0 0) (Vec3 0 0 (- 1))
                     negative_weights_config)
          (dirs negative_weights_config))
     = 5 / 2
   \<and> calc_width probe_rot probe_hit [] (Vec3 0 0 0) (Vec3 0 0 (- 1)) equal_hits_config
     = Inr (13727957 / 4194304)
   \<and> claimed_width equal_hits_config
       (surviving (vertex_ray probe_rot probe_hit [] (Vec3 0 0 0) (Vec3 0 0 (- 1))
                     equal_hits_config)
          (dirs equal_hits_config))
     = 6863979 / 2097152 + 1 / 16"
proof (intro conjI)
  let ?a = negative_weights_config
  let ?b = equal_hits_config
  have fa: "\<not> is_angle_filtering ?a" and fb: "\<not> is_angle_filtering ?b"
    by (simp_all add: negative_weights_config_def equal_hits_config_def)
  have da: "dirs ?a = [probe_dir 1 (- 1), probe_dir 3 (- 1)]"
    by (simp add: negative_weights_config_def)
  have db: "dirs ?b = [probe_dir (6863979 / 2097152) 1, probe_dir (6863979 / 2097152) 1,
              probe_dir (6863979 / 2097152) 1]"
    by (simp add: equal_hits_config_def)
  have ne_a: "\<forall>d \<in> set (dirs ?a). \<forall>e.
     vertex_ray probe_rot probe_hit [] (Vec3 0 0 0) (Vec3 0 0 (- 1)) ?a d \<noteq> Inl e"
    unfolding da by (simp add: probe_ray_unfiltered [OF fa])
  have sv_a: "surviving (vertex_ray probe_rot probe_hit [] (Vec3 0 0 0) (Vec3 0 0 (- 1)) ?a)
                (dirs ?a) = [(1, - 1), (3, - 1)]"
    unfolding da by (simp add: probe_ray_unfiltered [OF fa])
  have mean_a: "spec_mean [1, 3] = 2"
    by (simp add: spec_mean_def sum32_def f32_exact)
  have var_a: "spec_variance [1, 3] = 1"
    by (simp add: spec_variance_def mean_a sum32_def f32_exact)
  have kept_a: "spec_kept ?a [(1, - 1), (3, - 1)] = [(1, - 1), (3, - 1)]"
    by (simp add: spec_kept_def spec_far_def mean_a var_a f32_exact
          negative_weights_config_def)
  have w_a: "spec_width ?a [(1, - 1), (3, - 1)] = 2"
    by (simp add: spec_width_def kept_a mean_a sum32_def f32_exact)
  have nz_a: "\<not> vz (Vec3 0 0 (- 1 :: real)) > normal_z_max ?a"
    by (simp add: negative_weights_config_def)
  show "calc_width probe_rot probe_hit [] (Vec3 0 0 0) (Vec3 0 0 (- 1)) ?a = Inr 2"
    unfolding calc_width_spec [of ?a probe_rot probe_hit "[]" "Vec3 0 0 0" "Vec3 0 0 (- 1)",
        OF ne_a] sv_a w_a
    using nz_a by simp
  have cm_a: "claimed_mean [1, 3] = 2" by (simp add: claimed_mean_def)
  have cd_a: "claimed_deviation [1, 3] = 1" by (simp add: claimed_deviation_def cm_a)
  have ck_a: "claimed_kept ?a [(1, - 1), (3, - 1)] = [(1, - 1), (3, - 1)]"
    by (simp add: claimed_kept_def cm_a cd_a negative_weights_config_def)
  show "claimed_width ?a
          (surviving (vertex_ray probe_rot probe_hit [] (Vec3 0 0 0) (Vec3 0 0 (- 1)) ?a)
             (dirs ?a)) = 5 / 2"
  proof -
    have "safe_move ?a = 1 / 2" by (simp add: negative_weights_config_def)
    then show ?thesis unfolding sv_a by (simp add: claimed_width_def ck_a)
  qed
  have ne_b: "\<forall>d \<in> set (dirs ?b). \<forall>e.
     vertex_ray probe_rot probe_hit [] (Vec3 0 0 0) (Vec3 0 0 (- 1)) ?b d \<noteq> Inl e"
    unfolding db by (simp add: probe_ray_unfiltered [OF fb])
  have sv_b: "surviving (vertex_ray probe_rot probe_hit [] (Vec3 0 0 0) (Vec3 0 0 (- 1)) ?b)
                (dirs ?b)
              = [(6863979 / 2097152, 1), (6863979 / 2097152, 1), (6863979 / 2097152, 1)]"
    unfolding db by (simp add: probe_ray_unfiltered [OF fb])
  have kept_b: "spec_kept ?b
      [(6863979 / 2097152, 1), (6863979 / 2097152, 1), (6863979 / 2097152, 1)] = []"
    by (simp add: spec_kept_def spec_far_def equal_hits_mean equal_hits_variance
          equal_hits_roundings f32_exact equal_hits_config_def)
  have w_b: "spec_width ?b
      [(6863979 / 2097152, 1), (6863979 / 2097152, 1), (6863979 / 2097152, 1)]
      = 13727957 / 4194304"
    by (simp add: spec_width_def kept_b equal_hits_mean sum32_def)
  have nz_b: "\<not> vz (Vec3 0 0 (- 1 :: real)) > normal_z_max ?b"
    by (simp add: equal_hits_config_def)
  show "calc_width probe_rot probe_hit [] (Vec3 0 0 0) (Vec3 0 0 (- 1)) ?b
        = Inr (13727957 / 4194304)"
    unfolding calc_width_spec [of ?b probe_rot probe_hit "[]" "Vec3 0 0 0" "Vec3 0 0 (- 1)",
        OF ne_b] sv_b w_b
    using nz_b by simp
  have cm_b: "claimed_mean [6863979 / 2097152, 6863979 / 2097152, 6863979 / 2097152]
              = 6863979 / 2097152"
    by (simp add: claimed_mean_def)
  have cd_b: "claimed_deviation [6863979 / 2097152, 6863979 / 2097152, 6863979 / 2097152] = 0"
    by (simp add: claimed_deviation_def cm_b)
  have ck_b: "claimed_kept ?b
      [(6863979 / 2097152, 1), (6863979 / 2097152, 1), (6863979 / 2097152, 1)]
      = [(6863979 / 2097152, 1), (6863979 / 2097152, 1), (6863979 / 2097152, 1)]"
    by (simp add: claimed_kept_def cm_b cd_b)
  show "claimed_width ?b
          (surviving (vertex_ray probe_rot probe_hit [] (Vec3 0 0 0) (Vec3 0 0 (- 1)) ?b)
             (dirs ?b))
      = 6863979 / 2097152 + 1 / 16"
  proof -
    have "safe_move ?b = 1 / 16" by (simp add: equal_hits_config_def)
    then show ?thesis unfolding sv_b by (simp add: claimed_width_def ck_b)
  qed
qed

section \<open>Support point sampler: proofs\<close>

lemma in_needs_iff: "in_needs cfg w = (\<not> (w > max_width cfg \<or> w < 0))"
  by (auto simp: in_needs_def)

lemma radiuses_loop_skip:
  assumes "vget widths i0 = Some w0" and "vget widths i1 = Some w1" and "vget widths i2 = Some w2"
    and "\<not> (in_needs cfg w0 \<and> in_needs cfg w1 \<and> in_needs cfg w2)"
  shows "radiuses_loop widths cfg [i0, i1, i2] acc = Inr None"
proof -
  obtain rs a where acc: "acc = (rs, a)" by (cases acc)
  show ?thesis using assms unfolding acc in_needs_iff
    by (auto simp: Let_def)
qed

lemma radiuses_loop_full:
  assumes "vget widths i0 = Some w0" and "vget widths i1 = Some w1" and "vget widths i2 = Some w2"
    and "in_needs cfg w0" and "in_needs cfg w1" and "in_needs cfg w2"
  shows "\<exists>rs a. radiuses_loop widths cfg [i0, i1, i2] ([], 0) = Inr (Some (rs, a))"
  using assms unfolding in_needs_iff by (simp add: Let_def)

lemma triangles_loop_append:
  "triangles_loop vs widths cfg (pre @ post) g result =
     (case triangles_loop vs widths cfg pre g result of
        Inl e \<Rightarrow> Inl e
      | Inr (result', g') \<Rightarrow> triangles_loop vs widths cfg post g' result')"
proof (induction pre arbitrary: g result)
  case Nil
  then show ?case by simp
next
  case (Cons t pre)
  show ?case
  proof (cases "sample_triangle vs widths cfg t g result")
    case (Inl e)
    then show ?thesis by simp
  next
    case (Inr r)
    obtain r' g' where r: "r = (r', g')" by (cases r)
    show ?thesis using Inr Cons.IH unfolding r by simp
  qed
qed

lemma points_loop_draws:
  "\<exists>pts. points_loop k v0 v1 v2 rs g result = (result @ pts, g\<lparr>pos := pos g + 2 * k\<rparr>)
         \<and> length pts = k"
proof (induction k arbitrary: g result)
  case 0
  then show ?case by simp
next
  case (Suc k)
  define u where "u = draws g (pos g)"
  define v where "v = draws g (Suc (pos g))"
  define b0 where "b0 = (if u + v > 1 then 1 - u else u)"
  define b1 where "b1 = (if u + v > 1 then 1 - v else v)"
  define p where "p = \<lparr>point = vadd (vadd (smul v0 b0) (smul v1 b1)) (smul v2 (1 - b0 - b1)),
                       radius = b0 * rs ! 0 + b1 * rs ! 1 + (1 - b0 - b1) * rs ! 2\<rparr>"
  have step: "points_loop (Suc k) v0 v1 v2 rs g result =
              points_loop k v0 v1 v2 rs (g\<lparr>pos := Suc (Suc (pos g))\<rparr>) (result @ [p])"
    by (simp add: uniform01_def Let_def p_def b0_def b1_def u_def v_def)
  obtain pts where pts:
    "points_loop k v0 v1 v2 rs (g\<lparr>pos := Suc (Suc (pos g))\<rparr>) (result @ [p]) =
       ((result @ [p]) @ pts, (g\<lparr>pos := Suc (Suc (pos g))\<rparr>)\<lparr>pos := pos (g\<lparr>pos := Suc (Suc (pos g))\<rparr>) + 2 * k\<rparr>)"
    "length pts = k"
    using Suc.IH by blast
  have "points_loop (Suc k) v0 v1 v2 rs g result = (result @ (p # pts), g\<lparr>pos := pos g + 2 * Suc k\<rparr>)"
    unfolding step pts(1) by simp
  moreover have "length (p # pts) = Suc k" using pts(2) by simp
  ultimately show ?case by blast
qed


lemma sample_triangle_skip:
  assumes "vget widths (nth3 t 0) = Some w0" and "vget widths (nth3 t 1) = Some w1"
    and "vget widths (nth3 t 2) = Some w2"
    and "\<not> (in_needs cfg w0 \<and> in_needs cfg w1 \<and> in_needs cfg w2)"
  shows "sample_triangle vs widths cfg t g result = Inr (result, g)"
  unfolding sample_triangle_def radiuses_loop_skip [OF assms] by simp

text \<open>
  C7. A triangle one of whose three vertex widths lies outside \<open>[0, max_width]\<close> adds no
  point and leaves the generator as it was; the output of \<open>generate_support_points\<close> is
  the same as for the mesh without that triangle.
\<close>

theorem out_of_range_triangle_is_skipped:
  assumes "vget widths (nth3 t 0) = Some w0" and "vget widths (nth3 t 1) = Some w1"
    and "vget widths (nth3 t 2) = Some w2"
    and "\<not> (in_needs cfg w0 \<and> in_needs cfg w1 \<and> in_needs cfg w2)"
  shows "sample_triangle (vertices its) widths cfg t g result = Inr (result, g)
       \<and> generate_support_points (its\<lparr>indices := pre @ t # post\<rparr>) widths cfg g0 =
         generate_support_points (its\<lparr>indices := pre @ post\<rparr>) widths cfg g0"
proof -
  have skip: "\<And>g result. sample_triangle (vertices its) widths cfg t g result = Inr (result, g)"
    by (rule sample_triangle_skip [OF assms])
  have "triangles_loop (vertices its) widths cfg (pre @ t # post) g0 [] =
        triangles_loop (vertices its) widths cfg (pre @ post) g0 []"
    unfolding triangles_loop_append [of _ _ _ pre]
    by (simp add: skip split: sum.splits)
  then show ?thesis using skip by (simp add: generate_support_points_def)
qed

theorem out_of_range_triangle_is_skipped_witness:
  "sample_triangle [Vec3 0 0 0, Vec3 1 0 0, Vec3 0 1 0] [1, - 1, 1]
     \<lparr>min_width = 0, max_width = 2, min_radius = 1, max_radius = 2, multiplicator = 1,
      sample_normal_z_max = 1\<rparr>
     (Vec3 0 1 2) \<lparr>draws = (\<lambda>i. 1 / 2), pos = 0\<rparr> []
   = Inr ([], \<lparr>draws = (\<lambda>i. 1 / 2), pos = 0\<rparr>)"
proof -
  have r: "vget [1, - 1, 1 :: real] (nth3 (Vec3 0 1 2) 0) = Some 1"
    "vget [1, - 1, 1 :: real] (nth3 (Vec3 0 1 2) 1) = Some (- 1)"
    "vget [1, - 1, 1 :: real] (nth3 (Vec3 0 1 2) 2) = Some 1"
    by (simp_all add: vget_def)
  have n: "\<not> (in_needs \<lparr>min_width = 0, max_width = 2, min_radius = 1, max_radius = 2,
                 multiplicator = 1, sample_normal_z_max = 1\<rparr> 1
             \<and> in_needs \<lparr>min_width = 0, max_width = 2, min_radius = 1, max_radius = 2,
                 multiplicator = 1, sample_normal_z_max = 1\<rparr> (- 1)
             \<and> in_needs \<lparr>min_width = 0, max_width = 2, min_radius = 1, max_radius = 2,
                 multiplicator = 1, sample_normal_z_max = 1\<rparr> 1)"
    by (simp add: in_needs_def)
  show ?thesis
    using out_of_range_triangle_is_skipped [OF r n,
        of "\<lparr>indices = [], vertices = [Vec3 0 0 0, Vec3 1 0 0, Vec3 0 1 0]\<rparr>"
           "\<lparr>draws = (\<lambda>i. 1 / 2), pos = 0\<rparr>" "[]"]
    by simp
qed

lemma sample_triangle_full:
  assumes r0: "vget widths (nth3 t 0) = Some w0" and r1: "vget widths (nth3 t 1) = Some w1"
    and r2: "vget widths (nth3 t 2) = Some w2"
    and full: "in_needs cfg w0 \<and> in_needs cfg w1 \<and> in_needs cfg w2"
    and ret: "sample_triangle vs widths cfg t g result = Inr (result', g')"
  shows "\<exists>pts. result' = result @ pts \<and> g' = g\<lparr>pos := pos g + 1 + 2 * length pts\<rparr>"
proof -
  from full obtain rs a where rl:
    "radiuses_loop widths cfg [nth3 t 0, nth3 t 1, nth3 t 2] ([], 0) = Inr (Some (rs, a))"
    using radiuses_loop_full [OF r0 r1 r2] by blast
  from ret obtain v0 v1 v2 where v:
    "vget vs (nth3 t 0) = Some v0" "vget vs (nth3 t 1) = Some v1" "vget vs (nth3 t 2) = Some v2"
    unfolding sample_triangle_def rl by (auto split: option.splits simp: Let_def)
  from ret have a0: "a / 3 \<noteq> 0"
    unfolding sample_triangle_def rl by (auto simp: v Let_def simp del: One_nat_def split: if_splits)
  define countf where "countf = triangle_area3 v0 v1 v2 / (a / 3) * multiplicator cfg"
  define cnt where "cnt = (if draws g (pos g) < countf - real_of_int (int_part countf)
                            then int_part countf + 1 else int_part countf)"
  define n where "n = normalize3 (cross (vsub v1 v0) (vsub v2 v0))"
  define g1 where "g1 = g\<lparr>pos := Suc (pos g)\<rparr>"
  have st: "sample_triangle vs widths cfg t g result =
     (if cnt = 0 then Inr (result, g1)
      else if vz n > sample_normal_z_max cfg then Inr (result, g1)
      else Inr (points_loop (nat cnt) v0 v1 v2 rs g1 result))"
    unfolding sample_triangle_def rl using a0
    by (simp add: v Let_def uniform01_def countf_def cnt_def n_def g1_def del: One_nat_def)
  show ?thesis
  proof (cases "cnt = 0 \<or> vz n > sample_normal_z_max cfg")
    case True
    with ret have "result' = result" "g' = g1" unfolding st by (auto split: if_splits)
    then show ?thesis by (intro exI [of _ "[]"]) (simp add: g1_def)
  next
    case False
    obtain pts where pts: "points_loop (nat cnt) v0 v1 v2 rs g1 result =
        (result @ pts, g1\<lparr>pos := pos g1 + 2 * nat cnt\<rparr>)" "length pts = nat cnt"
      using points_loop_draws by blast
    from ret False have "result' = result @ pts" "g' = g1\<lparr>pos := pos g1 + 2 * nat cnt\<rparr>"
      unfolding st pts(1) by auto
    then show ?thesis using pts(2) by (intro exI [of _ pts]) (simp add: g1_def)
  qed
qed

text \<open>
  C10. When the three vertex widths of a triangle lie in \<open>[0, max_width]\<close> and the triangle
  is processed without error, the generator has advanced by one draw (the rounding draw)
  plus two draws per point added: by exactly one draw when the triangle adds no point,
  whether it was dropped by the zero-count check or by the orientation filter. A triangle
  with a width out of range adds no point and does not advance the generator.
\<close>

theorem rounding_draw_precedes_filters:
  assumes "vget widths (nth3 t 0) = Some w0" and "vget widths (nth3 t 1) = Some w1"
    and "vget widths (nth3 t 2) = Some w2"
    and "sample_triangle vs widths cfg t g result = Inr (result', g')"
  shows "if in_needs cfg w0 \<and> in_needs cfg w1 \<and> in_needs cfg w2
         then \<exists>pts. result' = result @ pts \<and> g' = g\<lparr>pos := pos g + 1 + 2 * length pts\<rparr>
         else result' = result \<and> g' = g"
proof (cases "in_needs cfg w0 \<and> in_needs cfg w1 \<and> in_needs cfg w2")
  case True
  show ?thesis unfolding if_P [OF True]
    by (rule sample_triangle_full [OF assms(1-3) True assms(4)])
next
  case False
  have "result' = result \<and> g' = g"
    using sample_triangle_skip [OF assms(1-3) False, of vs g result] assms(4) by simp
  then show ?thesis unfolding if_not_P [OF False] .
qed

text \<open>
  C4. \<open>calc_widths\<close> returns the empty result when its guard fails
  (\<open>calc_widths_guard\<close> below); \<open>generate_support_points\<close> has the assertion only and no
  guard. With the empty width vector that \<open>calc_widths\<close> returns for an empty direction
  set, a mesh of one triangle makes \<open>generate_support_points\<close> read \<^verbatim>\<open>widths[0]\<close> out of
  range instead of returning an empty result.
\<close>

theorem missing_guard_reads_out_of_range:
  "generate_support_points \<lparr>indices = [Vec3 0 1 2], vertices = [a, b, c]\<rparr> [] cfg g
   = Inl OutOfRange"
  by (simp add: generate_support_points_def sample_triangle_def vget_def)

lemma calc_widths_guard:
  "points = [] \<or> dirs config = [] \<or> length points \<noteq> length normals \<Longrightarrow>
   calc_widths rot first_hit triangle_normals points normals config = Inr []"
  by (simp add: calc_widths_def)

theorem rounding_draw_precedes_filters_witness:
  "sample_triangle [Vec3 0 0 0, Vec3 1 0 0, Vec3 0 1 0] [1, 1, 1]
     \<lparr>min_width = 0, max_width = 2, min_radius = 1, max_radius = 2, multiplicator = 0,
      sample_normal_z_max = 1\<rparr>
     (Vec3 0 1 2) \<lparr>draws = (\<lambda>i. 1 / 2), pos = 0\<rparr> []
   = Inr ([], \<lparr>draws = (\<lambda>i. 1 / 2), pos = 1\<rparr>)
   \<and> (\<exists>pts. [] = [] @ pts \<and>
        \<lparr>draws = (\<lambda>i. 1 / 2), pos = 1\<rparr> =
        \<lparr>draws = (\<lambda>i. 1 / 2), pos = 0\<rparr>\<lparr>pos := pos \<lparr>draws = (\<lambda>i. 1 / 2 :: real), pos = 0\<rparr> + 1 + 2 * length (pts :: PointRadius list)\<rparr>)"
proof -
  let ?cfg = "\<lparr>min_width = 0, max_width = 2, min_radius = 1, max_radius = 2, multiplicator = 0,
      sample_normal_z_max = 1\<rparr>"
  have r: "vget [1, 1, 1 :: real] (nth3 (Vec3 0 1 2) 0) = Some 1"
    "vget [1, 1, 1 :: real] (nth3 (Vec3 0 1 2) 1) = Some 1"
    "vget [1, 1, 1 :: real] (nth3 (Vec3 0 1 2) 2) = Some 1"
    by (simp_all add: vget_def)
  have n: "in_needs ?cfg 1 \<and> in_needs ?cfg 1 \<and> in_needs ?cfg 1"
    by (simp add: in_needs_def)
  have e: "sample_triangle [Vec3 0 0 0, Vec3 1 0 0, Vec3 0 1 0] [1, 1, 1] ?cfg
     (Vec3 0 1 2) \<lparr>draws = (\<lambda>i. 1 / 2), pos = 0\<rparr> []
   = Inr ([], \<lparr>draws = (\<lambda>i. 1 / 2), pos = 1\<rparr>)"
    by (simp add: sample_triangle_def vget_def width_to_radius_def Let_def int_part_def
        uniform01_def)
  from rounding_draw_precedes_filters [OF r e] n e show ?thesis
    by (simp only: if_True simp_thms)
qed

section \<open>Subdivision: proofs\<close>

lemma nth3_simps [simp]:
  "nth3 v 0 = vx v" "nth3 v (Suc 0) = vy v" "nth3 v 1 = vy v" "nth3 v 2 = vz v"
  "nth3 v (Suc (Suc 0)) = vz v"
  by (cases v; simp)+









lemma data_calc_length [simp]: "data (calc_length e j) = data e"
  by (simp add: calc_length_def)






lemma divide_eval:
  fixes di :: nat
  defines "i1 \<equiv> (di + 1) mod 3" and "i2 \<equiv> (di + 2) mod 3"
  assumes key: "edge_key (nth3 (tl_indices t) di) (nth3 (tl_indices t) i1) = ((u, w), key_swap)"
    and q: "q = f32 (nth3 (tl_l t) di / m)"
    and guard: "\<not> (m = 0 \<or> q < 0 \<or> 2 ^ 64 \<le> q)"
    and n: "n = \<lfloor>q\<rfloor>"
    and foc: "find_or_create (u, w) n (f32 (real_of_int (n + 1))) V E = Inr (sq, V1, E1)"
    and k: "k = choose_offset n key_swap (nth3 (tl_l t) i1) (nth3 (tl_l t) i2)"
    and new: "new_index = seq_index sq k"
    and v2: "vget V1 (nth3 (tl_indices t) i2) = Some v2"
    and vn: "vget V1 new_index = Some vn"
    and r: "ratio = f32 (f32 (real_of_int (1 + k)) / f32 (real_of_int (n + 1)))"
    and len1: "len1 = f32 (nth3 (tl_l t) di * ratio)"
    and len2: "len2 = f32 (nth3 (tl_l t) di - len1)"
  shows "divide di m t V E =
     Inr ((\<lparr>tl_indices = Vec3 (nth3 (tl_indices t) di) new_index (nth3 (tl_indices t) i2),
            tl_l = Vec3 (if key_swap then len2 else len1)
                        (norm32 (vsub32 v2 vn)) (nth3 (tl_l t) i2)\<rparr>,
           \<lparr>tl_indices = Vec3 new_index (nth3 (tl_indices t) i1) (nth3 (tl_indices t) i2),
            tl_l = Vec3 (if key_swap then len1 else len2)
                        (nth3 (tl_l t) i1) (norm32 (vsub32 v2 vn))\<rparr>),
          V1, register_second (register_first E1 u new_index sq k) w new_index sq k n)"
  unfolding divide_def Let_def i1_def [symmetric] i2_def [symmetric] key prod.case
    q [symmetric] n [symmetric] foc sum.case
    choose_offset_def [symmetric] k [symmetric]
    seq_sign_def [symmetric] seq_index_def [symmetric] new [symmetric]
    v2 vn option.case r [symmetric] len1 [symmetric] len2 [symmetric] fst_conv snd_conv
    register_first_def [symmetric] register_second_def [symmetric]
  using guard by (simp add: register_second_def seq_index_def)
















lemma tri_roundings:
  "f32 (15 / 4) = 15 / 4" "f32 (15 / 8) = 15 / 8"
  "f32 (6810701 / 2097152) = 6810701 / 2097152"
  "f32 (10742861 / 2097152) = 10742861 / 2097152"
  "f32 (225 / 64) = 225 / 64" "f32 (225 / 16) = 225 / 16"
  "f32 (46385648111401 / 4398046511104) = 675 / 64"
  "f32 (25165824 / 1006633) = 13107199 / 524288"
  "f32 (13 / 25) = 1090519 / 2097152"
  "f32 (16357785 / 8388608) = 16357785 / 8388608"
  "f32 (15099495 / 8388608) = 15099495 / 8388608"
  "f32 12 = 12" "f32 13 = 13" "f32 25 = 25"
proof -
  show "f32 (15 / 4) = 15 / 4" by (rule f32_dyadic_eq [of _ 15 2]) simp_all
  show "f32 (15 / 8) = 15 / 8" by (rule f32_dyadic_eq [of _ 15 3]) simp_all
  show "f32 (6810701 / 2097152) = 6810701 / 2097152"
    by (rule f32_dyadic_eq [of _ 6810701 21]) simp_all
  show "f32 (10742861 / 2097152) = 10742861 / 2097152"
    by (rule f32_dyadic_eq [of _ 10742861 21]) simp_all
  show "f32 (225 / 64) = 225 / 64" by (rule f32_dyadic_eq [of _ 225 6]) simp_all
  show "f32 (225 / 16) = 225 / 16" by (rule f32_dyadic_eq [of _ 225 4]) simp_all
  show "f32 (46385648111401 / 4398046511104) = 675 / 64"
    by (rule f32_eval_pos [where e = 3 and r = 11059200])
      (simp_all add: pow2_eval rne_def Let_def)
  show "f32 (25165824 / 1006633) = 13107199 / 524288"
    by (rule f32_eval_pos [where e = 4 and r = 13107199])
      (simp_all add: pow2_eval rne_def Let_def)
  show "f32 (13 / 25) = 1090519 / 2097152"
    by (rule f32_eval_pos [where e = "- 1" and r = 8724152])
      (simp_all add: pow2_eval rne_def Let_def)
  show "f32 (16357785 / 8388608) = 16357785 / 8388608"
    by (rule f32_dyadic_eq [of _ 16357785 23]) simp_all
  show "f32 (15099495 / 8388608) = 15099495 / 8388608"
    by (rule f32_dyadic_eq [of _ 15099495 23]) simp_all
  show "f32 12 = 12" "f32 13 = 13" "f32 25 = 25" by (simp_all add: f32_numeral)
qed

lemma sqrt_225_16: "sqrt (225 / 16) = 15 / 4"
  by (rule real_sqrt_unique) (simp_all add: power2_eq_square)

lemma tri_Edges_init: "Edges_init (Vec3 0 1 2) tri_vertices = Some tri_edges"
  by (simp add: Edges_init_def tri_vertices_def tri_edges_def vget_def vsub32_def
        tri_roundings f32_minus)

lemma tri_norms:
  "norm32 (Vec3 (- (15 / 4)) 0 0) = 15 / 4"
  "norm32 (Vec3 (15 / 8) (- (6810701 / 2097152)) 0) = 15 / 4"
  "norm32 (Vec3 (15 / 8) (6810701 / 2097152) 0) = 15 / 4"
  by (simp_all add: norm32_def dot32_def tri_roundings sqrt_225_16)

lemma tri_is_dividable:
  "is_dividable tri_max_length tri_edges
     = (True, tri_edges\<lparr>lengths := Vec3 (15 / 4) (15 / 4) (15 / 4)\<rparr>)"
  by (simp add: is_dividable_def tri_edges_def tri_max_length_def abs_sum_def
        biggest_index_def calc_length_def Let_def tri_norms tri_roundings)

lemma length_new_vertices: "length (new_vertices vf vs n segs) = nat n"
  by (simp add: new_vertices_def Let_def)

lemma tri_get_divide_index: "get_divide_index tri_max_length tri_lengths = 2"
  by (simp add: get_divide_index_def tri_lengths_def tri_max_length_def)

lemma tri_quotient: "f32 (nth3 (tl_l tri_lengths) 2 / tri_max_length) = 13107199 / 524288"
  by (simp add: tri_lengths_def tri_max_length_def tri_roundings)

lemma tri_divide:
  "divide 2 tri_max_length tri_lengths tri_vertices Map.empty =
     Inr ((\<lparr>tl_indices = Vec3 2 15 1,
            tl_l = Vec3 (15099495 / 8388608)
                     (norm32 (vsub32 (Vec3 (15 / 4) 0 0)
                        ((tri_vertices @ new_vertices (Vec3 0 0 0)
                            (Vec3 (15 / 8) (6810701 / 2097152) 0) 24 25) ! 15)))
                     (15 / 4)\<rparr>,
           \<lparr>tl_indices = Vec3 15 0 1,
            tl_l = Vec3 (16357785 / 8388608) (15 / 4)
                     (norm32 (vsub32 (Vec3 (15 / 4) 0 0)
                        ((tri_vertices @ new_vertices (Vec3 0 0 0)
                            (Vec3 (15 / 8) (6810701 / 2097152) 0) 24 25) ! 15)))\<rparr>),
          tri_vertices @ new_vertices (Vec3 0 0 0) (Vec3 (15 / 8) (6810701 / 2097152) 0) 24 25,
          [(0, 2) \<mapsto> \<lparr>start_index = 3, positive_order = True\<rparr>,
           (0, 15) \<mapsto> \<lparr>start_index = 3, positive_order = True\<rparr>,
           (2, 15) \<mapsto> \<lparr>start_index = 26, positive_order = False\<rparr>])"
proof -
  define V1 where "V1 = tri_vertices @ new_vertices (Vec3 0 0 0)
                            (Vec3 (15 / 8) (6810701 / 2097152) 0) 24 25"
  define sq where "sq = \<lparr>start_index = 3, positive_order = True\<rparr>"
  have lV1: "length V1 = 27" by (simp add: V1_def tri_vertices_def length_new_vertices)
  have key: "edge_key (nth3 (tl_indices tri_lengths) 2)
               (nth3 (tl_indices tri_lengths) ((2 + 1) mod 3)) = ((0, 2), True)"
    by (simp add: tri_lengths_def edge_key_def)
  have q: "13107199 / 524288 = f32 (nth3 (tl_l tri_lengths) 2 / tri_max_length)"
    by (simp only: tri_quotient)
  have guard: "\<not> (tri_max_length = 0 \<or> (13107199 / 524288 :: real) < 0
                  \<or> 2 ^ 64 \<le> (13107199 / 524288 :: real))"
    by (simp add: tri_max_length_def)
  have n: "(24 :: int) = \<lfloor>13107199 / 524288 :: real\<rfloor>" by simp
  have foc: "find_or_create (0, 2) 24 (f32 (real_of_int (24 + 1))) tri_vertices Map.empty
             = Inr (sq, V1, [(0, 2) \<mapsto> sq])"
    by (simp add: find_or_create_def vget_def tri_vertices_def V1_def sq_def tri_roundings Let_def)
  have k: "(12 :: int) = choose_offset 24 True (nth3 (tl_l tri_lengths) ((2 + 1) mod 3))
                           (nth3 (tl_l tri_lengths) ((2 + 2) mod 3))"
    by (simp add: choose_offset_def tri_lengths_def)
  have new: "(15 :: int) = seq_index sq 12" by (simp add: seq_index_def seq_sign_def sq_def)
  have v2: "vget V1 (nth3 (tl_indices tri_lengths) ((2 + 2) mod 3)) = Some (Vec3 (15 / 4) 0 0)"
    using lV1 by (simp add: vget_def tri_lengths_def V1_def tri_vertices_def)
  have vn: "vget V1 15 = Some (V1 ! 15)" using lV1 by (simp add: vget_def)
  have r: "(1090519 / 2097152 :: real)
           = f32 (f32 (real_of_int (1 + 12)) / f32 (real_of_int (24 + 1)))"
    by (simp add: tri_roundings)
  have len1: "(16357785 / 8388608 :: real)
              = f32 (nth3 (tl_l tri_lengths) 2 * (1090519 / 2097152))"
    by (simp add: tri_lengths_def tri_roundings)
  have len2: "(15099495 / 8388608 :: real)
              = f32 (nth3 (tl_l tri_lengths) 2 - 16357785 / 8388608)"
    by (simp add: tri_lengths_def tri_roundings)
  have reg: "register_second (register_first [(0, 2) \<mapsto> sq] 0 15 sq 12) 2 15 sq 12 24
             = [(0, 2) \<mapsto> sq, (0, 15) \<mapsto> sq,
                (2, 15) \<mapsto> \<lparr>start_index = 26, positive_order = False\<rparr>]"
    by (simp add: register_first_def register_second_def insert_new_def
          offset_below_last_def seq_sign_def sq_def)
  note e = divide_eval [OF key q guard n foc k new v2 vn r len1 len2]
  show ?thesis
    unfolding e reg V1_def [symmetric]
    by (simp add: tri_lengths_def sq_def)
qed

text \<open>
  C2 at the equilateral triangle of side \<open>3.75\<close> with the bound \<^verbatim>\<open>0.15f\<close>. The three
  lengths are stored as \<open>3.75\<close> and the third edge, between the vertices 0 and 2, is
  split first: 24 points are inserted at the indices 3 to 26 and the triangle is split
  at the point 15. The piece between the vertices 2 and 15 is registered as the sequence
  that starts at the index 26 and runs down, which has the 11 points 26 to 16, and its
  length is stored as \<open>15099495 / 2\<^sup>2\<^sup>3\<close>. From this length the code computes the count 12
  for the piece: the twelfth point of its sequence is the vertex 15, the end of the
  piece.
\<close>

theorem first_split_registers_short_piece:
  "Edges_init (Vec3 0 1 2) tri_vertices = Some tri_edges
   \<and> is_dividable tri_max_length tri_edges
       = (True, tri_edges\<lparr>lengths := Vec3 (15 / 4) (15 / 4) (15 / 4)\<rparr>)
   \<and> get_divide_index tri_max_length tri_lengths = 2
   \<and> split_count tri_max_length tri_lengths 2 = 24
   \<and> (\<exists>new_len V'.
         divide 2 tri_max_length tri_lengths tri_vertices Map.empty =
           Inr ((\<lparr>tl_indices = Vec3 2 15 1,
                  tl_l = Vec3 (15099495 / 8388608) new_len (15 / 4)\<rparr>,
                 \<lparr>tl_indices = Vec3 15 0 1,
                  tl_l = Vec3 (16357785 / 8388608) (15 / 4) new_len\<rparr>),
                V',
                [(0, 2) \<mapsto> \<lparr>start_index = 3, positive_order = True\<rparr>,
                 (0, 15) \<mapsto> \<lparr>start_index = 3, positive_order = True\<rparr>,
                 (2, 15) \<mapsto> \<lparr>start_index = 26, positive_order = False\<rparr>])
         \<and> length V' = 27
         \<and> split_count tri_max_length
              \<lparr>tl_indices = Vec3 2 15 1,
               tl_l = Vec3 (15099495 / 8388608) new_len (15 / 4)\<rparr> 0 = 12)
   \<and> seq_index \<lparr>start_index = 26, positive_order = False\<rparr> (12 - 1) = 15
   \<and> seq_index \<lparr>start_index = 26, positive_order = False\<rparr> (11 - 1) = 16"
proof (intro conjI)
  show "Edges_init (Vec3 0 1 2) tri_vertices = Some tri_edges" by (rule tri_Edges_init)
  show "is_dividable tri_max_length tri_edges
       = (True, tri_edges\<lparr>lengths := Vec3 (15 / 4) (15 / 4) (15 / 4)\<rparr>)"
    by (rule tri_is_dividable)
  show "get_divide_index tri_max_length tri_lengths = 2" by (rule tri_get_divide_index)
  show "split_count tri_max_length tri_lengths 2 = 24"
    unfolding split_count_def tri_quotient by simp
  have c: "split_count tri_max_length
              \<lparr>tl_indices = Vec3 2 15 1,
               tl_l = Vec3 (15099495 / 8388608) x (15 / 4)\<rparr> 0 = 12" for x
    by (simp add: split_count_def tri_max_length_def tri_roundings)
  have l: "length (tri_vertices @ new_vertices (Vec3 0 0 0)
                     (Vec3 (15 / 8) (6810701 / 2097152) 0) 24 25) = 27"
    by (simp add: tri_vertices_def length_new_vertices)
  from tri_divide l c
  show "\<exists>new_len V'.
         divide 2 tri_max_length tri_lengths tri_vertices Map.empty =
           Inr ((\<lparr>tl_indices = Vec3 2 15 1,
                  tl_l = Vec3 (15099495 / 8388608) new_len (15 / 4)\<rparr>,
                 \<lparr>tl_indices = Vec3 15 0 1,
                  tl_l = Vec3 (16357785 / 8388608) (15 / 4) new_len\<rparr>),
                V',
                [(0, 2) \<mapsto> \<lparr>start_index = 3, positive_order = True\<rparr>,
                 (0, 15) \<mapsto> \<lparr>start_index = 3, positive_order = True\<rparr>,
                 (2, 15) \<mapsto> \<lparr>start_index = 26, positive_order = False\<rparr>])
         \<and> length V' = 27
         \<and> split_count tri_max_length
              \<lparr>tl_indices = Vec3 2 15 1,
               tl_l = Vec3 (15099495 / 8388608) new_len (15 / 4)\<rparr> 0 = 12"
    by blast
  show "seq_index \<lparr>start_index = 26, positive_order = False\<rparr> (12 - 1) = 15"
    by (simp add: seq_index_def seq_sign_def)
  show "seq_index \<lparr>start_index = 26, positive_order = False\<rparr> (11 - 1) = 16"
    by (simp add: seq_index_def seq_sign_def)
qed

end